theory Spec2Isabelle
  imports Complex_Main "HOL-Library.Word"
begin

unbundle bit_operations_syntax

section \<open>Numbers\<close>

text \<open>
  Every TypeScript \<^verbatim>\<open>number\<close> of the game is modelled as a \<^typ>\<open>real\<close>: the
  arithmetic of the source is read as exact arithmetic, without the rounding of doubles.
  The counters of the luminance pass are natural numbers. The pixels of the camera frame
  are read through a \<^verbatim>\<open>Uint32Array\<close> and are modelled as \<^typ>\<open>32 word\<close>.
\<close>

section \<open>VisionTracker.tsx: the input estimator\<close>

text \<open>
  The \<^verbatim>\<open>kalmanX\<close> ref: \<^verbatim>\<open>{ x: 0.5, p: 1.0, q: 0.08, r: 0.04 }\<close>. The fields
  are prefixed with \<open>k\<close> because \<open>x\<close>, \<open>p\<close>, \<open>q\<close>, \<open>r\<close> are wanted as variable names.
\<close>

record kalman =
  kx :: real
  kp :: real
  kq :: real
  kr :: real

definition kalmanX :: kalman where
  "kalmanX = \<lparr>kx = 0.5, kp = 1.0, kq = 0.08, kr = 0.04\<rparr>"

text \<open>
  Lines 120-124 of \<^verbatim>\<open>processFrame\<close>, the four assignments of the filter update:
  \<^verbatim>\<open>k.p = k.p + k.q; const gain = k.p / (k.p + k.r);
  k.x = k.x + gain * (z - k.x); k.p = (1 - gain) * k.p;\<close>
  \<open>predicted_p\<close> is the value of \<^verbatim>\<open>k.p\<close> after the first assignment and
  \<open>gain\<close> the constant of the second.
\<close>

definition predicted_p :: "kalman \<Rightarrow> real" where
  "predicted_p k = kp k + kq k"

definition gain :: "kalman \<Rightarrow> real" where
  "gain k = predicted_p k / (predicted_p k + kr k)"

definition kalman_update :: "kalman \<Rightarrow> real \<Rightarrow> kalman" where
  "kalman_update k z =
     k\<lparr>kx := kx k + gain k * (z - kx k),
       kp := (1 - gain k) * predicted_p k\<rparr>"

text \<open>
  The constant measurement of the convergence property: \<open>n\<close> successive updates with
  the same measurement \<open>z\<close>.
\<close>

definition repeat_update :: "nat \<Rightarrow> real \<Rightarrow> kalman \<Rightarrow> kalman" where
  "repeat_update n z k = ((\<lambda>k. kalman_update k z) ^^ n) k"

text \<open>
  The luminance pass of \<^verbatim>\<open>processFrame\<close> (lines 89-108) over the 32-bit view of the
  80 x 60 processing canvas: \<^verbatim>\<open>r = pixel & 0xFF\<close>, \<^verbatim>\<open>g = (pixel >> 8) & 0xFF\<close>,
  \<^verbatim>\<open>b = (pixel >> 16) & 0xFF\<close>, and a pixel qualifies when
  \<^verbatim>\<open>0.299 * r + 0.587 * g + 0.114 * b > 180\<close>; then \<^verbatim>\<open>sumX += i % 80\<close> and
  \<^verbatim>\<open>count++\<close>. \<open>scan i data (sumX, count)\<close> is the loop from index \<open>i\<close> on.
\<close>

definition brightness :: "32 word \<Rightarrow> real" where
  "brightness pixel =
     0.299 * real (unat (pixel AND 0xFF))
     + 0.587 * real (unat (drop_bit 8 pixel AND 0xFF))
     + 0.114 * real (unat (drop_bit 16 pixel AND 0xFF))"

fun scan :: "nat \<Rightarrow> 32 word list \<Rightarrow> nat \<times> nat \<Rightarrow> nat \<times> nat" where
  "scan i [] (sumX, count) = (sumX, count)"
| "scan i (pixel # data) (sumX, count) =
     (if brightness pixel > 180
      then scan (i + 1) data (sumX + i mod 80, count + 1)
      else scan (i + 1) data (sumX, count))"

text \<open>
  What one call of \<^verbatim>\<open>processFrame\<close> finds: the video or the processing context is
  not ready (line 64), the display canvas has no 2D context (line 70), or a frame whose
  pixels are read.
\<close>

datatype frame = NotReady | NoDisplayContext | Image "32 word list"

text \<open>
  Lines 113-117: the centroid of the qualifying pixels as a fraction of the width, and the
  remapping with a dead zone of 10 percent on each edge, clamped to \<open>[0, 1]\<close>.
\<close>

definition measurement :: "nat \<Rightarrow> nat \<Rightarrow> real" where
  "measurement sumX count =
     (let rawMeasurement = (real sumX / real count) / 80;
          z = (rawMeasurement - 0.1) / 0.8
      in max 0 (min 1 z))"

text \<open>
  \<^verbatim>\<open>processFrame\<close>. The result is the filter state, the arguments of the call of
  \<^verbatim>\<open>onHandUpdate\<close> if there is one, and whether the next frame was requested. The
  drawing on the display canvas and the tracking quality shown by the component change
  nothing of the filter and are left out.
\<close>

definition processFrame :: "kalman \<Rightarrow> frame \<Rightarrow> kalman \<times> (real \<times> bool) option \<times> bool" where
  "processFrame k f =
     (case f of
        NotReady \<Rightarrow> (k, None, True)
      | NoDisplayContext \<Rightarrow> (k, None, False)
      | Image data \<Rightarrow>
          (let (sumX, count) = scan 0 data (0, 0) in
           if count > 8
           then (let k' = kalman_update k (measurement sumX count)
                 in (k', Some (kx k', True), True))
           else (k, Some (kx k, False), True)))"

text \<open>A sequence of camera frames: the states and the reports, in order.\<close>

fun processFrames :: "kalman \<Rightarrow> frame list \<Rightarrow> kalman \<times> (real \<times> bool) option list" where
  "processFrames k [] = (k, [])"
| "processFrames k (f # fs) =
     (case processFrame k f of (k', report, again) \<Rightarrow>
        (case processFrames k' fs of (k'', reports) \<Rightarrow> (k'', report # reports)))"

section \<open>GameWorld.tsx: the engine\<close>

datatype ObjectType = GOOD | BAD

datatype InputMode = CURSOR | VISION

datatype GameTheme = COSMIC | NEON_CITY | NATURE | URBAN_RAIN | MIND_LAB | RETRO

datatype GameDifficulty = EASY | MEDIUM | HARD

text \<open>
  A \<^verbatim>\<open>GameObject\<close>, as the spawner builds it (lines 110-118). The identifier is
  \<^verbatim>\<open>Math.random().toString()\<close> and is kept as the number drawn; the variant is an
  element of the theme's array, \<open>None\<close> where the index is outside it.
\<close>

record GameObject =
  obj_id :: real
  obj_x :: real
  obj_y :: real
  obj_radius :: real
  obj_speed :: real
  obj_type :: ObjectType
  obj_variant :: "string option"

text \<open>
  \<^verbatim>\<open>THEME_DATA\<close> (lines 17-24). The colours are left out, they are read by the
  rendering only; the glyphs of the variants are written as ASCII tags.
\<close>

record theme_data =
  gravityMult :: real
  good :: "string list"
  bad :: "string list"

fun THEME_DATA :: "GameTheme \<Rightarrow> theme_data" where
  "THEME_DATA COSMIC = \<lparr>gravityMult = 0.9,
     good = [''gem'', ''sparkles'', ''comet''], bad = [''rock'', ''new_moon'', ''collision'']\<rparr>"
| "THEME_DATA NEON_CITY = \<lparr>gravityMult = 1.1,
     good = [''floppy'', ''zap'', ''battery''], bad = [''invader'', ''skull'', ''fire'']\<rparr>"
| "THEME_DATA NATURE = \<lparr>gravityMult = 0.7,
     good = [''apple'', ''cherries'', ''sunflower''], bad = [''web'', ''leaves'', ''wilted'']\<rparr>"
| "THEME_DATA URBAN_RAIN = \<lparr>gravityMult = 1.3,
     good = [''umbrella'', ''coffee'', ''gem''], bad = [''zap'', ''barrier'', ''collision'']\<rparr>"
| "THEME_DATA MIND_LAB = \<lparr>gravityMult = 1.0,
     good = [''brain'', ''puzzle'', ''test_tube''], bad = [''stop'', ''warning'', ''chart_down'']\<rparr>"
| "THEME_DATA RETRO = \<lparr>gravityMult = 1.2,
     good = [''star'', ''mushroom'', ''gem''], bad = [''ghost'', ''bomb'', ''invader'']\<rparr>"

text \<open>\<^verbatim>\<open>DIFFICULTY_SETTINGS\<close> (lines 26-30).\<close>

record difficulty_settings =
  initialLives :: real
  growth :: real
  hazardPenalty :: real
  spawnRateBase :: real

fun DIFFICULTY_SETTINGS :: "GameDifficulty \<Rightarrow> difficulty_settings" where
  "DIFFICULTY_SETTINGS EASY =
     \<lparr>initialLives = 5, growth = 0.03, hazardPenalty = 1, spawnRateBase = 1200\<rparr>"
| "DIFFICULTY_SETTINGS MEDIUM =
     \<lparr>initialLives = 3, growth = 0.1, hazardPenalty = 1, spawnRateBase = 1000\<rparr>"
| "DIFFICULTY_SETTINGS HARD =
     \<lparr>initialLives = 1, growth = 0.25, hazardPenalty = 1, spawnRateBase = 700\<rparr>"

text \<open>
  The \<^verbatim>\<open>engine\<close> ref (lines 39-50). \<^verbatim>\<open>startTime\<close> is \<^verbatim>\<open>Date.now()\<close> when the
  component is created, given here as \<open>now\<close>.
\<close>

record engine =
  score :: real
  lives :: real
  combo :: real
  objects :: "GameObject list"
  handX :: real
  isHandDetected :: bool
  difficulty :: real
  spawnTimer :: real
  lastTime :: real
  startTime :: real

definition engine_init :: "difficulty_settings \<Rightarrow> real \<Rightarrow> engine" where
  "engine_init settings now =
     \<lparr>score = 0, lives = initialLives settings, combo = 0, objects = [], handX = 0.5,
      isHandDetected = True, difficulty = 1, spawnTimer = 0, lastTime = 0, startTime = now\<rparr>"

text \<open>
  The five calls of \<^verbatim>\<open>Math.random()\<close> of one spawn, in the order of the source: the
  hazard draw, the identifier, the horizontal position, the speed, the variant index.
\<close>

record draws =
  r_isBad :: real
  r_id :: real
  r_x :: real
  r_speed :: real
  r_variant :: real

text \<open>What the loop sends out: the two sounds and the call of \<^verbatim>\<open>onGameOver\<close>.\<close>

datatype event = PlayCollect GameTheme | PlayHazard GameTheme | GameOver int

text \<open>Reading an array at an index: \<^verbatim>\<open>undefined\<close> outside the array.\<close>

definition js_index :: "'a list \<Rightarrow> int \<Rightarrow> 'a option" where
  "js_index xs i = (if 0 \<le> i \<and> nat i < length xs then Some (xs ! nat i) else None)"

text \<open>Line 93: \<^verbatim>\<open>const step = Math.min(dt, 32) / 16.67\<close>.\<close>

definition step :: "real \<Rightarrow> real" where
  "step dt = min dt 32 / 16.67"

text \<open>Lines 99-102: every object falls, and an object at \<open>y \<ge> 650\<close> is dropped.\<close>

definition update_objects :: "theme_data \<Rightarrow> real \<Rightarrow> real \<Rightarrow> GameObject list \<Rightarrow> GameObject list" where
  "update_objects tData stp d objs =
     filter (\<lambda>obj. obj_y obj < 650)
       (map (\<lambda>obj. obj\<lparr>obj_y := obj_y obj + obj_speed obj * stp * gravityMult tData * d\<rparr>) objs)"

text \<open>Line 106: \<^verbatim>\<open>Math.max(200, settings.spawnRateBase - (e.score * 3))\<close>.\<close>

definition spawnRate :: "difficulty_settings \<Rightarrow> real \<Rightarrow> real" where
  "spawnRate settings sc = max 200 (spawnRateBase settings - sc * 3)"

text \<open>Lines 109-118: the object pushed by the spawner.\<close>

definition spawn_object :: "theme_data \<Rightarrow> draws \<Rightarrow> GameObject" where
  "spawn_object tData dr =
     (let isBad = r_isBad dr < 0.22 in
      \<lparr>obj_id = r_id dr,
       obj_x = r_x dr * 700 + 50,
       obj_y = - 50,
       obj_radius = 20,
       obj_speed = 4 + r_speed dr * 3,
       obj_type = (if isBad then BAD else GOOD),
       obj_variant = (if isBad then js_index (bad tData) \<lfloor>r_variant dr * 3\<rfloor>
                      else js_index (good tData) \<lfloor>r_variant dr * 3\<rfloor>)\<rparr>)"

text \<open>
  Lines 122-126: the paddle, \<^verbatim>\<open>pw = 140\<close>, \<^verbatim>\<open>ph = 24\<close>,
  \<^verbatim>\<open>px = e.handX * 800 - pw/2\<close>, \<^verbatim>\<open>py = 600 - 110\<close>, and the test
  \<^verbatim>\<open>obj.x > px && obj.x < px + pw && obj.y > py && obj.y < py + ph\<close>.
\<close>

definition pw :: real where "pw = 140"

definition ph :: real where "ph = 24"

definition py :: real where "py = 600 - 110"

definition paddle_px :: "real \<Rightarrow> real" where
  "paddle_px hx = hx * 800 - pw / 2"

definition hit :: "real \<Rightarrow> GameObject \<Rightarrow> bool" where
  "hit px obj \<longleftrightarrow> obj_x obj > px \<and> obj_x obj < px + pw \<and> obj_y obj > py \<and> obj_y obj < py + ph"

text \<open>
  Lines 127-137: what a hit does. A GOOD object adds \<^verbatim>\<open>5 + Math.floor(e.combo / 4)\<close>
  to the score and then increments the combo; a BAD one takes the penalty from the lives
  and resets the combo.
\<close>

definition on_hit :: "difficulty_settings \<Rightarrow> GameTheme \<Rightarrow> GameObject \<Rightarrow> engine \<Rightarrow> engine \<times> event" where
  "on_hit settings theme obj e =
     (if obj_type obj = GOOD
      then (e\<lparr>score := score e + (5 + of_int \<lfloor>combo e / 4\<rfloor>), combo := combo e + 1\<rparr>,
            PlayCollect theme)
      else (e\<lparr>lives := lives e - hazardPenalty settings, combo := 0\<rparr>,
            PlayHazard theme))"

text \<open>The sound a hit plays, by the category of the object.\<close>

definition hit_event :: "GameTheme \<Rightarrow> GameObject \<Rightarrow> event" where
  "hit_event theme obj = (if obj_type obj = GOOD then PlayCollect theme else PlayHazard theme)"

text \<open>
  Lines 125-140: the \<^verbatim>\<open>filter\<close> whose callback updates the engine. The objects are
  visited in order; the result is the objects kept, the sounds played and the engine.
\<close>

fun resolve :: "difficulty_settings \<Rightarrow> GameTheme \<Rightarrow> real \<Rightarrow> GameObject list \<Rightarrow> engine
    \<Rightarrow> GameObject list \<times> event list \<times> engine" where
  "resolve settings theme px [] e = ([], [], e)"
| "resolve settings theme px (obj # objs) e =
     (if hit px obj
      then (case on_hit settings theme obj e of (e1, ev) \<Rightarrow>
              (case resolve settings theme px objs e1 of (kept, evs, e2) \<Rightarrow>
                 (kept, ev # evs, e2)))
      else (case resolve settings theme px objs e of (kept, evs, e2) \<Rightarrow>
              (obj # kept, evs, e2)))"

text \<open>Line 142: the expression assigned to \<^verbatim>\<open>e.difficulty\<close>.\<close>

definition difficulty_at :: "real \<Rightarrow> real \<Rightarrow> real \<Rightarrow> real" where
  "difficulty_at sc now start = 1 + (sc / 500) + ((now - start) / 120000)"

text \<open>
  \<^verbatim>\<open>loop\<close> (lines 85-173), one call of the frame callback. \<open>isPaused\<close>,
  \<open>settings\<close>, \<open>theme\<close> and \<open>tData\<close> are the values the closure holds; \<open>time\<close> is
  the argument of the callback, \<open>now\<close> the value of \<^verbatim>\<open>Date.now()\<close> at line 142 and
  \<open>dr\<close> the random draws. The result is the engine, the events sent out in order, and
  whether \<^verbatim>\<open>requestAnimationFrame(loop)\<close> was called again. The drawing on the
  canvas (lines 149-170) changes nothing of the engine and is left out.
\<close>

definition loop :: "difficulty_settings \<Rightarrow> GameTheme \<Rightarrow> theme_data \<Rightarrow> bool \<Rightarrow> real \<Rightarrow> real
    \<Rightarrow> draws \<Rightarrow> engine \<Rightarrow> engine \<times> event list \<times> bool" where
  "loop settings theme tData isPaused time now dr e0 =
     (if isPaused then (e0, [], True)
      else
        let dt = time - lastTime e0;
            e1 = e0\<lparr>lastTime := time\<rparr>;
            stp = step dt;
            e2 = e1\<lparr>objects := update_objects tData stp (difficulty e1) (objects e1)\<rparr>;
            e3 = e2\<lparr>spawnTimer := spawnTimer e2 + dt\<rparr>;
            e4 = (if spawnTimer e3 > spawnRate settings (score e3)
                  then e3\<lparr>spawnTimer := 0, objects := objects e3 @ [spawn_object tData dr]\<rparr>
                  else e3);
            px = paddle_px (handX e4)
        in case resolve settings theme px (objects e4) e4 of (kept, evs, e5) \<Rightarrow>
             let e6 = e5\<lparr>objects := kept\<rparr>;
                 e7 = e6\<lparr>difficulty := difficulty_at (score e6) now (startTime e6)\<rparr>
             in if lives e7 \<le> 0
                then (e7, evs @ [GameOver \<lfloor>score e7\<rfloor>], False)
                else (e7, evs, True))"

text \<open>
  The same tick cut into the stages of the specification, each a function of the engine.
\<close>

definition motion_stage :: "theme_data \<Rightarrow> real \<Rightarrow> engine \<Rightarrow> engine" where
  "motion_stage tData dt e =
     e\<lparr>objects := update_objects tData (step dt) (difficulty e) (objects e)\<rparr>"

definition spawn_stage :: "difficulty_settings \<Rightarrow> theme_data \<Rightarrow> real \<Rightarrow> draws \<Rightarrow> engine \<Rightarrow> engine" where
  "spawn_stage settings tData dt dr e =
     (if spawnTimer e + dt > spawnRate settings (score e)
      then e\<lparr>spawnTimer := 0, objects := objects e @ [spawn_object tData dr]\<rparr>
      else e\<lparr>spawnTimer := spawnTimer e + dt\<rparr>)"

definition collision_stage :: "difficulty_settings \<Rightarrow> GameTheme \<Rightarrow> engine \<Rightarrow> engine \<times> event list" where
  "collision_stage settings theme e =
     (case resolve settings theme (paddle_px (handX e)) (objects e) e of
        (kept, evs, e') \<Rightarrow> (e'\<lparr>objects := kept\<rparr>, evs))"

definition difficulty_stage :: "real \<Rightarrow> engine \<Rightarrow> engine" where
  "difficulty_stage now e = e\<lparr>difficulty := difficulty_at (score e) now (startTime e)\<rparr>"

definition termination_check :: "engine \<times> event list \<Rightarrow> engine \<times> event list \<times> bool" where
  "termination_check r =
     (case r of (e, evs) \<Rightarrow>
        if lives e \<le> 0 then (e, evs @ [GameOver \<lfloor>score e\<rfloor>], False) else (e, evs, True))"

text \<open>
  The engine of a running tick when the collision pass starts: the time reference is
  written, the objects have moved and the spawner has run.
\<close>

definition before_collisions :: "difficulty_settings \<Rightarrow> theme_data \<Rightarrow> real \<Rightarrow> draws \<Rightarrow> engine \<Rightarrow> engine" where
  "before_collisions settings tData time dr e =
     spawn_stage settings tData (time - lastTime e) dr
       (motion_stage tData (time - lastTime e) (e\<lparr>lastTime := time\<rparr>))"

text \<open>
  Lines 60-63 and 67-72: the two ways the paddle position is written. \<open>rect\<close> is the
  left edge and the width of the container, \<open>None\<close> when there is no container. The
  container is laid out, so its width is positive; for a width of 0 the source divides by
  zero, which this definition does not follow.
\<close>

definition handleHandUpdate :: "engine \<Rightarrow> real \<Rightarrow> bool \<Rightarrow> engine" where
  "handleHandUpdate e x detected = e\<lparr>handX := x, isHandDetected := detected\<rparr>"

definition handleMove :: "bool \<Rightarrow> engine \<Rightarrow> real \<Rightarrow> (real \<times> real) option \<Rightarrow> engine" where
  "handleMove isPaused e clientX rect =
     (if isPaused then e
      else case rect of
             None \<Rightarrow> e
           | Some (left, width) \<Rightarrow> e\<lparr>handX := max 0 (min 1 ((clientX - left) / width))\<rparr>)"

text \<open>
  The component between two renders: the engine, the \<^verbatim>\<open>isPaused\<close> state, and
  whether a frame callback is pending. \<^verbatim>\<open>loop\<close> requests the next frame unless the
  lives are used up; the effect of line 77 runs again when \<^verbatim>\<open>isPaused\<close> changes and
  requests a frame with the new value. After \<^verbatim>\<open>onGameOver\<close> the application leaves
  the gameplay scene (\<^verbatim>\<open>setCurrentScene(GameScene.GAME_OVER)\<close>) and the component is
  gone: \<open>running\<close> is false from then on and nothing is delivered any more.
\<close>

record world =
  eng :: engine
  paused :: bool
  running :: bool

datatype input =
    AnimationFrame real real draws
  | HandUpdate real bool
  | MouseMove real "(real \<times> real) option"
  | TogglePause

definition world_init :: "difficulty_settings \<Rightarrow> real \<Rightarrow> world" where
  "world_init settings now = \<lparr>eng = engine_init settings now, paused = False, running = True\<rparr>"

definition dispatch :: "difficulty_settings \<Rightarrow> GameTheme \<Rightarrow> theme_data \<Rightarrow> InputMode \<Rightarrow> world \<Rightarrow> input
    \<Rightarrow> world \<times> event list" where
  "dispatch settings theme tData mode w i =
     (if \<not> running w then (w, [])
      else case i of
        AnimationFrame time now dr \<Rightarrow>
          (case loop settings theme tData (paused w) time now dr (eng w) of
             (e, evs, again) \<Rightarrow> (w\<lparr>eng := e, running := again\<rparr>, evs))
      | HandUpdate x detected \<Rightarrow>
          (if mode = VISION then (w\<lparr>eng := handleHandUpdate (eng w) x detected\<rparr>, [])
           else (w, []))
      | MouseMove clientX rect \<Rightarrow>
          (if mode = CURSOR then (w\<lparr>eng := handleMove (paused w) (eng w) clientX rect\<rparr>, [])
           else (w, []))
      | TogglePause \<Rightarrow> (w\<lparr>paused := \<not> paused w\<rparr>, []))"

fun run :: "difficulty_settings \<Rightarrow> GameTheme \<Rightarrow> theme_data \<Rightarrow> InputMode \<Rightarrow> world \<Rightarrow> input list
    \<Rightarrow> world \<times> event list" where
  "run settings theme tData mode w [] = (w, [])"
| "run settings theme tData mode w (i # ins) =
     (case dispatch settings theme tData mode w i of (w1, evs1) \<Rightarrow>
        (case run settings theme tData mode w1 ins of (w2, evs2) \<Rightarrow> (w2, evs1 @ evs2)))"

section \<open>Concrete inputs\<close>

text \<open>
  Objects, draws and engines on which the properties below are evaluated. \<open>object_at\<close>
  is an object as the spawner makes them (radius 20, a speed inside \<open>[4, 7)\<close>) at a
  given place.
\<close>

definition object_at :: "real \<Rightarrow> real \<Rightarrow> ObjectType \<Rightarrow> GameObject" where
  "object_at x y t =
     \<lparr>obj_id = 0.25, obj_x = x, obj_y = y, obj_radius = 20, obj_speed = 5, obj_type = t,
      obj_variant = None\<rparr>"

definition sample_draws :: draws where
  "sample_draws = \<lparr>r_isBad = 0.5, r_id = 0.25, r_x = 0.5, r_speed = 0.5, r_variant = 0.5\<rparr>"

definition sample_engine :: "GameObject list \<Rightarrow> engine" where
  "sample_engine objs =
     \<lparr>score = 0, lives = 5, combo = 0, objects = objs, handX = 0.5, isHandDetected = True,
      difficulty = 1, spawnTimer = 0, lastTime = 1000, startTime = 0\<rparr>"

text \<open>
  Two ticks from the start of an easy game in the Mind Lab theme (gravity 1): the first,
  12 ms after the start, spawns an object; the second comes two minutes later.
\<close>

definition order_e1 :: engine where
  "order_e1 =
     fst (loop (DIFFICULTY_SETTINGS EASY) MIND_LAB (THEME_DATA MIND_LAB) False 5000 1000012
            sample_draws (engine_init (DIFFICULTY_SETTINGS EASY) 1000000))"

definition order_e2 :: engine where
  "order_e2 =
     fst (loop (DIFFICULTY_SETTINGS EASY) MIND_LAB (THEME_DATA MIND_LAB) False 125000 1120012
            sample_draws order_e1)"

text \<open>
  A run in which an object falls through the paddle. An easy game in the Mind Lab theme
  starts at clock time 1000000; the first frame is delivered 24 minutes later and spawns
  a GOOD object at \<open>x = 400\<close>, above the centred paddle; eight frames follow at 60 Hz.
\<close>

definition tunnel_prefix :: "input list" where
  "tunnel_prefix =
     [AnimationFrame 5000 2440000 sample_draws,
      AnimationFrame 5016.67 2440017 sample_draws,
      AnimationFrame 5033.34 2440033 sample_draws,
      AnimationFrame 5050.01 2440050 sample_draws,
      AnimationFrame 5066.68 2440067 sample_draws,
      AnimationFrame 5083.35 2440083 sample_draws,
      AnimationFrame 5100.02 2440100 sample_draws,
      AnimationFrame 5116.69 2440117 sample_draws]"

definition tunnel_last :: input where
  "tunnel_last = AnimationFrame 5133.36 2440133 sample_draws"

definition tunnel_before :: world where
  "tunnel_before =
     fst (run (DIFFICULTY_SETTINGS EASY) MIND_LAB (THEME_DATA MIND_LAB) CURSOR
            (world_init (DIFFICULTY_SETTINGS EASY) 1000000) tunnel_prefix)"

definition tunnel_after :: "world \<times> event list" where
  "tunnel_after =
     run (DIFFICULTY_SETTINGS EASY) MIND_LAB (THEME_DATA MIND_LAB) CURSOR
       (world_init (DIFFICULTY_SETTINGS EASY) 1000000) (tunnel_prefix @ [tunnel_last])"

text \<open>
  A pause of about one second. The first frame of an easy game spawns an object and
  leaves the spawn timer at 0; the game is paused, two frames are delivered while it is
  paused, the game is resumed and the next frame comes 1000 ms after the first.
\<close>

definition pause_w1 :: world where
  "pause_w1 =
     fst (run (DIFFICULTY_SETTINGS EASY) MIND_LAB (THEME_DATA MIND_LAB) CURSOR
            (world_init (DIFFICULTY_SETTINGS EASY) 1000000)
            [AnimationFrame 5000 1000012 sample_draws])"

definition pause_w2 :: world where
  "pause_w2 =
     fst (run (DIFFICULTY_SETTINGS EASY) MIND_LAB (THEME_DATA MIND_LAB) CURSOR pause_w1
            [TogglePause,
             AnimationFrame 5016.67 1000029 sample_draws,
             AnimationFrame 5983.33 1000995 sample_draws])"

definition pause_w3 :: world where
  "pause_w3 =
     fst (run (DIFFICULTY_SETTINGS EASY) MIND_LAB (THEME_DATA MIND_LAB) CURSOR pause_w2
            [TogglePause, AnimationFrame 6000 1001012 sample_draws])"

text \<open>Frames as inputs: the time, the clock and the draws of each.\<close>

definition frames :: "(real \<times> real \<times> draws) list \<Rightarrow> input list" where
  "frames fs = map (\<lambda>f. AnimationFrame (fst f) (fst (snd f)) (snd (snd f))) fs"

text \<open>The events of the hits, as opposed to the terminal event.\<close>

fun is_hit_event :: "event \<Rightarrow> bool" where
  "is_hit_event (PlayCollect theme) = True"
| "is_hit_event (PlayHazard theme) = True"
| "is_hit_event (GameOver finalScore) = False"

text \<open>
  Five hazards over the centred paddle of an easy game with all its lives: three are
  inside the paddle band after the next frame, two after the frame that follows.
\<close>

definition hazard_world :: world where
  "hazard_world =
     \<lparr>eng = sample_engine
        [object_at 400 490 BAD, object_at 380 485 BAD, object_at 400 490 BAD,
         object_at 420 485 BAD, object_at 400 490 BAD],
      paused = False, running = True\<rparr>"

definition hazard_frames :: "input list" where
  "hazard_frames =
     [AnimationFrame 1016.67 17 sample_draws, AnimationFrame 1033.34 33 sample_draws]"

text \<open>
  Six objects inside the paddle band after the next frame, in the order of the collision
  pass: five hazards followed by a GOOD object, and six hazards.
\<close>

definition late_good_world :: world where
  "late_good_world =
     \<lparr>eng = sample_engine
        [object_at 400 490 BAD, object_at 400 490 BAD, object_at 400 490 BAD,
         object_at 400 490 BAD, object_at 400 490 BAD, object_at 400 490 GOOD],
      paused = False, running = True\<rparr>"

definition six_hazards_world :: world where
  "six_hazards_world =
     \<lparr>eng = sample_engine
        [object_at 400 490 BAD, object_at 400 490 BAD, object_at 400 490 BAD,
         object_at 400 490 BAD, object_at 400 490 BAD, object_at 400 490 BAD],
      paused = False, running = True\<rparr>"

section \<open>Properties of the filter\<close>

lemma kalman_update_kq [simp]: "kq (kalman_update k z) = kq k"
  and kalman_update_kr [simp]: "kr (kalman_update k z) = kr k"
  by (simp_all add: kalman_update_def)

lemma gain_bounds:
  assumes "0 \<le> kp k" "0 < kq k" "0 < kr k"
  shows "0 < gain k" "gain k < 1"
  using assms by (simp_all add: gain_def predicted_p_def add_pos_nonneg add_nonneg_pos)

lemma one_minus_gain:
  assumes "0 \<le> kp k" "0 < kq k" "0 < kr k"
  shows "1 - gain k = kr k / (predicted_p k + kr k)"
proof -
  have "predicted_p k + kr k \<noteq> 0"
    using assms by (simp add: predicted_p_def add_nonneg_pos)
  then show ?thesis
    by (simp add: gain_def field_simps)
qed

lemma one_minus_gain_le:
  assumes "0 \<le> kp k" "0 < kq k" "0 < kr k"
  shows "1 - gain k \<le> kr k / (kq k + kr k)"
proof -
  have "kr k / (predicted_p k + kr k) \<le> kr k / (kq k + kr k)"
    using assms by (intro divide_left_mono) (simp_all add: predicted_p_def add_pos_pos add_nonneg_pos mult_pos_pos)
  then show ?thesis
    by (simp add: one_minus_gain [OF assms])
qed

lemma kalman_update_kp_nonneg:
  assumes "0 \<le> kp k" "0 < kq k" "0 < kr k"
  shows "0 \<le> kp (kalman_update k z)"
proof -
  have "0 \<le> (1 - gain k) * predicted_p k"
    using gain_bounds [OF assms] assms by (intro mult_nonneg_nonneg) (simp_all add: predicted_p_def)
  then show ?thesis
    by (simp add: kalman_update_def)
qed

lemma kalman_update_error:
  "kx (kalman_update k z) - z = (1 - gain k) * (kx k - z)"
  by (simp add: kalman_update_def algebra_simps)

lemma repeat_update_Suc: "repeat_update (Suc n) z k = kalman_update (repeat_update n z k) z"
  by (simp add: repeat_update_def)

lemma repeat_update_inv:
  assumes "0 \<le> kp k" "0 < kq k" "0 < kr k"
  shows "0 \<le> kp (repeat_update n z k) \<and> kq (repeat_update n z k) = kq k
         \<and> kr (repeat_update n z k) = kr k"
proof (induction n)
  case 0
  show ?case using assms by (simp add: repeat_update_def)
next
  case (Suc n)
  then have "0 \<le> kp (kalman_update (repeat_update n z k) z)"
    using assms by (intro kalman_update_kp_nonneg) simp_all
  with Suc show ?case
    by (simp add: repeat_update_Suc)
qed

lemma repeat_update_between:
  assumes "0 \<le> kp k" "0 < kq k" "0 < kr k"
  shows "(kx (repeat_update n z k) \<le> z \<longrightarrow>
            kx (repeat_update n z k) \<le> kx (repeat_update (Suc n) z k)
            \<and> kx (repeat_update (Suc n) z k) \<le> z)
       \<and> (z \<le> kx (repeat_update n z k) \<longrightarrow>
            z \<le> kx (repeat_update (Suc n) z k)
            \<and> kx (repeat_update (Suc n) z k) \<le> kx (repeat_update n z k))"
proof -
  let ?k = "repeat_update n z k"
  have inv: "0 \<le> kp ?k" "0 < kq ?k" "0 < kr ?k"
    using repeat_update_inv [OF assms, of n z] assms by simp_all
  have g: "0 < gain ?k" "gain ?k < 1"
    using gain_bounds [OF inv] by simp_all
  have e: "kx (kalman_update ?k z) - z = (1 - gain ?k) * (kx ?k - z)"
    by (rule kalman_update_error)
  have d: "kx (kalman_update ?k z) - kx ?k = gain ?k * (z - kx ?k)"
    by (simp add: kalman_update_def)
  show ?thesis
  proof (intro conjI impI)
    assume le: "kx ?k \<le> z"
    then have "0 \<le> gain ?k * (z - kx ?k)"
      using g by (intro mult_nonneg_nonneg) simp_all
    with d show "kx ?k \<le> kx (repeat_update (Suc n) z k)"
      by (simp add: repeat_update_Suc)
    have "(1 - gain ?k) * (kx ?k - z) \<le> 0"
      using g le by (intro mult_nonneg_nonpos) simp_all
    with e show "kx (repeat_update (Suc n) z k) \<le> z"
      by (simp add: repeat_update_Suc)
  next
    assume ge: "z \<le> kx ?k"
    then have "gain ?k * (z - kx ?k) \<le> 0"
      using g by (intro mult_nonneg_nonpos) simp_all
    with d show "kx (repeat_update (Suc n) z k) \<le> kx ?k"
      by (simp add: repeat_update_Suc)
    have "0 \<le> (1 - gain ?k) * (kx ?k - z)"
      using g ge by (intro mult_nonneg_nonneg) simp_all
    with e show "z \<le> kx (repeat_update (Suc n) z k)"
      by (simp add: repeat_update_Suc)
  qed
qed

lemma repeat_update_error_bound:
  assumes "0 \<le> kp k" "0 < kq k" "0 < kr k"
  shows "\<bar>kx (repeat_update n z k) - z\<bar> \<le> (kr k / (kq k + kr k)) ^ n * \<bar>kx k - z\<bar>"
proof (induction n)
  case 0
  show ?case by (simp add: repeat_update_def)
next
  case (Suc n)
  let ?k = "repeat_update n z k"
  let ?c = "kr k / (kq k + kr k)"
  have inv: "0 \<le> kp ?k" "0 < kq ?k" "0 < kr ?k"
    using repeat_update_inv [OF assms, of n z] assms by simp_all
  have c: "0 \<le> ?c" using assms by simp
  have g: "0 \<le> 1 - gain ?k" "1 - gain ?k \<le> ?c"
    using gain_bounds [OF inv] one_minus_gain_le [OF inv] repeat_update_inv [OF assms, of n z]
    by simp_all
  have "\<bar>kx (repeat_update (Suc n) z k) - z\<bar> = (1 - gain ?k) * \<bar>kx ?k - z\<bar>"
    using g by (simp add: repeat_update_Suc kalman_update_error abs_mult)
  also have "\<dots> \<le> ?c * \<bar>kx ?k - z\<bar>"
    using g by (intro mult_right_mono) simp_all
  also have "\<dots> \<le> ?c * (?c ^ n * \<bar>kx k - z\<bar>)"
    using c Suc by (intro mult_left_mono) simp_all
  finally show ?case by (simp add: mult.assoc)
qed

lemma repeat_update_tendsto:
  assumes "0 \<le> kp k" "0 < kq k" "0 < kr k"
  shows "(\<lambda>n. kx (repeat_update n z k)) \<longlonglongrightarrow> z"
proof -
  let ?c = "kr k / (kq k + kr k)"
  have c: "0 \<le> ?c" "?c < 1" using assms by simp_all
  have "(\<lambda>n. ?c ^ n) \<longlonglongrightarrow> 0"
    using c by (rule LIMSEQ_realpow_zero)
  then have "(\<lambda>n. ?c ^ n * \<bar>kx k - z\<bar>) \<longlonglongrightarrow> 0 * \<bar>kx k - z\<bar>"
    by (rule tendsto_mult_right)
  then have up: "(\<lambda>n. ?c ^ n * \<bar>kx k - z\<bar>) \<longlonglongrightarrow> 0"
    by simp
  have "(\<lambda>n. \<bar>kx (repeat_update n z k) - z\<bar>) \<longlonglongrightarrow> 0"
  proof (rule tendsto_sandwich [OF _ _ tendsto_const up])
    show "\<forall>\<^sub>F n in sequentially. 0 \<le> \<bar>kx (repeat_update n z k) - z\<bar>"
      by simp
    show "\<forall>\<^sub>F n in sequentially. \<bar>kx (repeat_update n z k) - z\<bar> \<le> ?c ^ n * \<bar>kx k - z\<bar>"
      using repeat_update_error_bound [OF assms] by simp
  qed
  then have "(\<lambda>n. kx (repeat_update n z k) - z) \<longlonglongrightarrow> 0"
    by (simp add: tendsto_rabs_zero_iff)
  then show ?thesis
    by (simp add: LIM_zero_iff)
qed

lemma processFrame_inv:
  assumes "0 \<le> kp k" "0 < kq k" "0 < kr k"
  shows "0 \<le> kp (fst (processFrame k f)) \<and> kq (fst (processFrame k f)) = kq k
         \<and> kr (fst (processFrame k f)) = kr k"
  using assms kalman_update_kp_nonneg [OF assms]
  by (simp add: processFrame_def Let_def case_prod_beta split: frame.splits)

lemma processFrames_Cons:
  "processFrames k (f # fs) =
     (fst (processFrames (fst (processFrame k f)) fs),
      fst (snd (processFrame k f)) # snd (processFrames (fst (processFrame k f)) fs))"
  by (simp add: case_prod_beta)

lemma processFrames_inv:
  assumes "0 \<le> kp k" "0 < kq k" "0 < kr k"
  shows "0 \<le> kp (fst (processFrames k fs)) \<and> kq (fst (processFrames k fs)) = kq k
         \<and> kr (fst (processFrames k fs)) = kr k"
  using assms
proof (induction fs arbitrary: k)
  case Nil
  then show ?case by simp
next
  case (Cons f fs)
  have inv: "0 \<le> kp (fst (processFrame k f))" "0 < kq (fst (processFrame k f))"
    "0 < kr (fst (processFrame k f))"
    using processFrame_inv [OF Cons.prems, of f] Cons.prems by simp_all
  from Cons.IH [OF inv] inv processFrame_inv [OF Cons.prems, of f] show ?case
    by (simp add: processFrames_Cons del: processFrames.simps(2))
qed

lemma repeat_update_abs_mono:
  assumes "0 \<le> kp k" "0 < kq k" "0 < kr k"
  shows "\<bar>kx (repeat_update (Suc n) z k) - z\<bar> \<le> \<bar>kx (repeat_update n z k) - z\<bar>"
  using repeat_update_between [OF assms, of n z] by linarith


section \<open>Properties of the collision pass and of the tick\<close>

lemma on_hit_event: "snd (on_hit st th obj e) = hit_event th obj"
  by (simp add: on_hit_def hit_event_def)

lemma on_hit_frame:
  "objects (fst (on_hit st th obj e)) = objects e"
  "handX (fst (on_hit st th obj e)) = handX e"
  "isHandDetected (fst (on_hit st th obj e)) = isHandDetected e"
  "difficulty (fst (on_hit st th obj e)) = difficulty e"
  "spawnTimer (fst (on_hit st th obj e)) = spawnTimer e"
  "lastTime (fst (on_hit st th obj e)) = lastTime e"
  "startTime (fst (on_hit st th obj e)) = startTime e"
  by (simp_all add: on_hit_def)

lemma resolve_Cons:
  "resolve st th px (obj # objs) e =
     (if hit px obj
      then (fst (resolve st th px objs (fst (on_hit st th obj e))),
            hit_event th obj # fst (snd (resolve st th px objs (fst (on_hit st th obj e)))),
            snd (snd (resolve st th px objs (fst (on_hit st th obj e)))))
      else (obj # fst (resolve st th px objs e),
            fst (snd (resolve st th px objs e)),
            snd (snd (resolve st th px objs e))))"
  by (simp add: case_prod_beta on_hit_event)

lemma resolve_kept: "fst (resolve st th px objs e) = filter (\<lambda>obj. \<not> hit px obj) objs"
  by (induction objs arbitrary: e) (simp_all add: resolve_Cons del: resolve.simps(2))

lemma resolve_events:
  "fst (snd (resolve st th px objs e)) = map (hit_event th) (filter (hit px) objs)"
  by (induction objs arbitrary: e) (simp_all add: resolve_Cons del: resolve.simps(2))

lemma resolve_frame:
  "objects (snd (snd (resolve st th px objs e))) = objects e
   \<and> handX (snd (snd (resolve st th px objs e))) = handX e
   \<and> isHandDetected (snd (snd (resolve st th px objs e))) = isHandDetected e
   \<and> difficulty (snd (snd (resolve st th px objs e))) = difficulty e
   \<and> spawnTimer (snd (snd (resolve st th px objs e))) = spawnTimer e
   \<and> lastTime (snd (snd (resolve st th px objs e))) = lastTime e
   \<and> startTime (snd (snd (resolve st th px objs e))) = startTime e"
  by (induction objs arbitrary: e)
    (simp_all add: resolve_Cons on_hit_frame del: resolve.simps(2))

lemma on_hit_lives:
  "lives (fst (on_hit st th obj e)) =
     (if obj_type obj = GOOD then lives e else lives e - hazardPenalty st)"
  by (simp add: on_hit_def)

lemma resolve_lives:
  "lives (snd (snd (resolve st th px objs e))) =
     lives e - hazardPenalty st * real (length (filter (\<lambda>obj. hit px obj \<and> obj_type obj \<noteq> GOOD) objs))"
  by (induction objs arbitrary: e)
    (simp_all add: resolve_Cons on_hit_lives algebra_simps del: resolve.simps(2))

lemma on_hit_score:
  assumes "0 \<le> combo e"
  shows "score e \<le> score (fst (on_hit st th obj e))" "0 \<le> combo (fst (on_hit st th obj e))"
proof -
  have "(0::int) \<le> \<lfloor>combo e / 4\<rfloor>" using assms by simp
  then have "(0::real) \<le> of_int \<lfloor>combo e / 4\<rfloor>" by simp
  then show "score e \<le> score (fst (on_hit st th obj e))"
    by (simp add: on_hit_def)
  show "0 \<le> combo (fst (on_hit st th obj e))"
    using assms by (simp add: on_hit_def)
qed

lemma resolve_score_mono:
  "0 \<le> combo e \<Longrightarrow>
     score e \<le> score (snd (snd (resolve st th px objs e)))
     \<and> 0 \<le> combo (snd (snd (resolve st th px objs e)))"
proof (induction objs arbitrary: e)
  case Nil
  then show ?case by simp
next
  case (Cons obj objs)
  show ?case
  proof (cases "hit px obj")
    case True
    have s: "score e \<le> score (fst (on_hit st th obj e))"
      and c: "0 \<le> combo (fst (on_hit st th obj e))"
      using on_hit_score [OF Cons.prems, of st th obj] by simp_all
    from Cons.IH [OF c] s True show ?thesis
      by (simp add: resolve_Cons del: resolve.simps(2))
  next
    case False
    with Cons.IH [OF Cons.prems] show ?thesis
      by (simp add: resolve_Cons del: resolve.simps(2))
  qed
qed

lemma on_hit_score_bad: "obj_type obj \<noteq> GOOD \<Longrightarrow> score (fst (on_hit st th obj e)) = score e"
  by (simp add: on_hit_def)

lemma resolve_score_no_good:
  "\<forall>obj \<in> set objs. hit px obj \<longrightarrow> obj_type obj \<noteq> GOOD \<Longrightarrow>
     score (snd (snd (resolve st th px objs e))) = score e"
  by (induction objs arbitrary: e)
    (simp_all add: resolve_Cons on_hit_score_bad del: resolve.simps(2))

lemma loop_paused: "loop st th td True time now dr e = (e, [], True)"
  by (simp add: loop_def)

lemma loop_stages:
  "loop st th td False time now dr e =
     termination_check
       (case collision_stage st th
               (spawn_stage st td (time - lastTime e) dr
                  (motion_stage td (time - lastTime e) (e\<lparr>lastTime := time\<rparr>))) of
          (e', evs) \<Rightarrow> (difficulty_stage now e', evs))"
  by (simp add: loop_def Let_def termination_check_def collision_stage_def spawn_stage_def
      motion_stage_def difficulty_stage_def case_prod_beta)

lemma resolve_isHandDetected:
  "resolve st th px objs (e\<lparr>isHandDetected := b\<rparr>) =
     (fst (resolve st th px objs e), fst (snd (resolve st th px objs e)),
      (snd (snd (resolve st th px objs e)))\<lparr>isHandDetected := b\<rparr>)"
proof (induction objs arbitrary: e)
  case Nil
  show ?case by simp
next
  case (Cons obj objs)
  have h: "fst (on_hit st th obj (e\<lparr>isHandDetected := b\<rparr>)) = (fst (on_hit st th obj e))\<lparr>isHandDetected := b\<rparr>"
    by (simp add: on_hit_def)
  show ?case
    by (simp add: resolve_Cons h Cons.IH del: resolve.simps(2))
qed

lemma motion_stage_isHandDetected:
  "motion_stage td dt (e\<lparr>isHandDetected := b\<rparr>) = (motion_stage td dt e)\<lparr>isHandDetected := b\<rparr>"
  by (simp add: motion_stage_def)

lemma spawn_stage_isHandDetected:
  "spawn_stage st td dt dr (e\<lparr>isHandDetected := b\<rparr>) =
     (spawn_stage st td dt dr e)\<lparr>isHandDetected := b\<rparr>"
  by (simp add: spawn_stage_def)

lemma collision_stage_isHandDetected:
  "collision_stage st th (e\<lparr>isHandDetected := b\<rparr>) =
     ((fst (collision_stage st th e))\<lparr>isHandDetected := b\<rparr>, snd (collision_stage st th e))"
  by (simp add: collision_stage_def resolve_isHandDetected case_prod_beta)

lemma difficulty_stage_isHandDetected:
  "difficulty_stage now (e\<lparr>isHandDetected := b\<rparr>) = (difficulty_stage now e)\<lparr>isHandDetected := b\<rparr>"
  by (simp add: difficulty_stage_def)

lemma termination_check_isHandDetected:
  "termination_check (e\<lparr>isHandDetected := b\<rparr>, evs) =
     ((fst (termination_check (e, evs)))\<lparr>isHandDetected := b\<rparr>, snd (termination_check (e, evs)))"
  by (simp add: termination_check_def)

lemma loop_isHandDetected:
  "loop st th td pz time now dr (e\<lparr>isHandDetected := b\<rparr>) =
     ((fst (loop st th td pz time now dr e))\<lparr>isHandDetected := b\<rparr>,
      snd (loop st th td pz time now dr e))"
proof (cases pz)
  case True
  then show ?thesis by (simp add: loop_paused)
next
  case False
  let ?dt = "time - lastTime e"
  let ?c = "collision_stage st th (spawn_stage st td ?dt dr (motion_stage td ?dt (e\<lparr>lastTime := time\<rparr>)))"
  have c: "(e\<lparr>isHandDetected := b\<rparr>)\<lparr>lastTime := time\<rparr> = (e\<lparr>lastTime := time\<rparr>)\<lparr>isHandDetected := b\<rparr>"
    by simp
  have "loop st th td False time now dr (e\<lparr>isHandDetected := b\<rparr>) =
      termination_check
       (case collision_stage st th
               (spawn_stage st td ?dt dr
                  (motion_stage td ?dt ((e\<lparr>isHandDetected := b\<rparr>)\<lparr>lastTime := time\<rparr>))) of
          (e', evs) \<Rightarrow> (difficulty_stage now e', evs))"
    using loop_stages [of st th td time now dr "e\<lparr>isHandDetected := b\<rparr>"] by simp
  also have "\<dots> = termination_check ((difficulty_stage now (fst ?c))\<lparr>isHandDetected := b\<rparr>, snd ?c)"
    by (simp only: c motion_stage_isHandDetected spawn_stage_isHandDetected
        collision_stage_isHandDetected difficulty_stage_isHandDetected case_prod_beta fst_conv snd_conv)
  also have "\<dots> = ((fst (termination_check (difficulty_stage now (fst ?c), snd ?c)))\<lparr>isHandDetected := b\<rparr>,
       snd (termination_check (difficulty_stage now (fst ?c), snd ?c)))"
    by (rule termination_check_isHandDetected)
  also have "termination_check (difficulty_stage now (fst ?c), snd ?c) = loop st th td False time now dr e"
    by (simp add: loop_stages case_prod_beta)
  finally show ?thesis using False by simp
qed

lemma spawnRate_floor: "200 \<le> spawnRate st sc"
  by (simp add: spawnRate_def)

lemma spawnRate_antimono: "sc \<le> sc' \<Longrightarrow> spawnRate st sc' \<le> spawnRate st sc"
  by (simp add: spawnRate_def)

lemma loop_spawnTimer:
  "spawnTimer (fst (loop st th td False time now dr e)) =
     (if spawnTimer e + (time - lastTime e) > spawnRate st (score e) then 0
      else spawnTimer e + (time - lastTime e))"
  using resolve_frame [of st th]
  by (simp add: loop_def Let_def case_prod_beta)

lemma collision_stage_fst:
  "fst (collision_stage st th e) =
     (snd (snd (resolve st th (paddle_px (handX e)) (objects e) e)))
       \<lparr>objects := filter (\<lambda>obj. \<not> hit (paddle_px (handX e)) obj) (objects e)\<rparr>"
  by (simp add: collision_stage_def case_prod_beta resolve_kept)

lemma collision_stage_snd:
  "snd (collision_stage st th e) =
     map (hit_event th) (filter (hit (paddle_px (handX e))) (objects e))"
  by (simp add: collision_stage_def case_prod_beta resolve_events)

lemma loop_running:
  "loop st th td False time now dr e =
     termination_check
       (difficulty_stage now (fst (collision_stage st th (before_collisions st td time dr e))),
        snd (collision_stage st th (before_collisions st td time dr e)))"
  by (simp add: loop_stages before_collisions_def case_prod_beta)

lemma termination_check_fst: "fst (termination_check (e, evs)) = e"
  by (simp add: termination_check_def)

lemma loop_running_fst:
  "fst (loop st th td False time now dr e) =
     difficulty_stage now (fst (collision_stage st th (before_collisions st td time dr e)))"
  by (simp add: loop_running termination_check_fst)

lemma before_collisions_handX: "handX (before_collisions st td time dr e) = handX e"
  by (simp add: before_collisions_def spawn_stage_def motion_stage_def)

lemma loop_objects:
  "objects (fst (loop st th td False time now dr e)) =
     filter (\<lambda>obj. \<not> hit (paddle_px (handX e)) obj) (objects (before_collisions st td time dr e))"
  by (simp add: loop_running_fst difficulty_stage_def collision_stage_fst before_collisions_handX)

lemma hit_iff:
  "hit px obj \<longleftrightarrow> px < obj_x obj \<and> obj_x obj < px + 140 \<and> 490 < obj_y obj \<and> obj_y obj < 514"
  by (simp add: hit_def pw_def py_def ph_def)

lemmas tick_eval =
  dispatch_def loop_def Let_def step_def update_objects_def spawnRate_def spawn_object_def
  sample_draws_def js_index_def paddle_px_def hit_def pw_def ph_def py_def difficulty_at_def
  on_hit_def

lemma order_e1_value:
  "order_e1 =
     \<lparr>score = 0, lives = 5, combo = 0,
      objects = [\<lparr>obj_id = 0.25, obj_x = 400, obj_y = - 50, obj_radius = 20, obj_speed = 5.5,
                  obj_type = GOOD, obj_variant = Some ''puzzle''\<rparr>],
      handX = 0.5, isHandDetected = True, difficulty = 1.0001, spawnTimer = 0,
      lastTime = 5000, startTime = 1000000\<rparr>"
  by (simp add: order_e1_def loop_def Let_def engine_init_def step_def update_objects_def
      spawnRate_def spawn_object_def sample_draws_def js_index_def paddle_px_def hit_def
      pw_def ph_def py_def difficulty_at_def)

lemma order_e2_objects:
  "map obj_y (objects order_e2) = [- 50 + 5.5 * step 120000 * 1 * 1.0001, - 50]"
  by (simp add: order_e2_def order_e1_value loop_def Let_def step_def update_objects_def
      spawnRate_def spawn_object_def sample_draws_def js_index_def paddle_px_def hit_def
      pw_def ph_def py_def difficulty_at_def)

lemma before_collisions_objects:
  "objects (before_collisions st td time dr e) =
     update_objects td (step (time - lastTime e)) (difficulty e) (objects e)
     @ (if spawnTimer e + (time - lastTime e) > spawnRate st (score e)
        then [spawn_object td dr] else [])"
  by (simp add: before_collisions_def spawn_stage_def motion_stage_def)

lemma before_collisions_frame:
  "score (before_collisions st td time dr e) = score e"
  "lives (before_collisions st td time dr e) = lives e"
  "combo (before_collisions st td time dr e) = combo e"
  "startTime (before_collisions st td time dr e) = startTime e"
  "lastTime (before_collisions st td time dr e) = time"
  "difficulty (before_collisions st td time dr e) = difficulty e"
  by (simp_all add: before_collisions_def spawn_stage_def motion_stage_def)

lemma collision_stage_frame:
  "startTime (fst (collision_stage st th e)) = startTime e"
  "lastTime (fst (collision_stage st th e)) = lastTime e"
  "spawnTimer (fst (collision_stage st th e)) = spawnTimer e"
  "handX (fst (collision_stage st th e)) = handX e"
  using resolve_frame [of st th "paddle_px (handX e)" "objects e" e]
  by (simp_all add: collision_stage_fst)

lemma loop_score:
  "score (fst (loop st th td False time now dr e)) =
     score (fst (collision_stage st th (before_collisions st td time dr e)))"
  by (simp add: loop_running_fst difficulty_stage_def)

lemma loop_lives:
  "lives (fst (loop st th td False time now dr e)) =
     lives (fst (collision_stage st th (before_collisions st td time dr e)))"
  by (simp add: loop_running_fst difficulty_stage_def)

lemma loop_difficulty:
  "difficulty (fst (loop st th td False time now dr e)) =
     difficulty_at (score (fst (loop st th td False time now dr e))) now (startTime e)"
  by (simp add: loop_running_fst difficulty_stage_def collision_stage_frame before_collisions_frame)

lemma loop_lastTime: "lastTime (fst (loop st th td False time now dr e)) = time"
  by (simp add: loop_running_fst difficulty_stage_def collision_stage_frame before_collisions_frame)

lemma loop_startTime: "startTime (fst (loop st th td pz time now dr e)) = startTime e"
  by (cases pz)
    (simp_all add: loop_paused loop_running_fst difficulty_stage_def collision_stage_frame
      before_collisions_frame)

lemma loop_again:
  "snd (snd (loop st th td False time now dr e)) \<longleftrightarrow>
     0 < lives (fst (loop st th td False time now dr e))"
  by (simp add: loop_running termination_check_def difficulty_stage_def not_le)

lemma loop_events:
  "fst (snd (loop st th td False time now dr e)) =
     map (hit_event th)
       (filter (hit (paddle_px (handX e))) (objects (before_collisions st td time dr e)))
     @ (if lives (fst (loop st th td False time now dr e)) \<le> 0
        then [GameOver \<lfloor>score (fst (loop st th td False time now dr e))\<rfloor>] else [])"
  by (simp add: loop_running termination_check_def difficulty_stage_def collision_stage_snd
      before_collisions_handX)

lemma spawn_stage_difficulty:
  "spawn_stage st td dt dr (e\<lparr>difficulty := d\<rparr>) = (spawn_stage st td dt dr e)\<lparr>difficulty := d\<rparr>"
  by (simp add: spawn_stage_def)

lemma tunnel_before_value:
  "tunnel_before =
     \<lparr>eng =
        \<lparr>score = 0, lives = 5, combo = 0,
         objects = [\<lparr>obj_id = 1 / 4, obj_x = 400, obj_y = 2162477 / 4800, obj_radius = 20,
                     obj_speed = 11 / 2, obj_type = GOOD, obj_variant = Some ''puzzle''\<rparr>],
         handX = 1 / 2, isHandDetected = True, difficulty = 520039 / 40000,
         spawnTimer = 11669 / 100, lastTime = 511669 / 100, startTime = 1000000\<rparr>,
      paused = False, running = True\<rparr>"
  by (simp add: tunnel_before_def tunnel_prefix_def world_init_def engine_init_def tick_eval)

lemma tunnel_after_value:
  "tunnel_after =
     (\<lparr>eng =
        \<lparr>score = 0, lives = 5, combo = 0,
         objects = [\<lparr>obj_id = 1 / 4, obj_x = 400, obj_y = 125285137 / 240000, obj_radius = 20,
                     obj_speed = 11 / 2, obj_type = GOOD, obj_variant = Some ''puzzle''\<rparr>],
         handX = 1 / 2, isHandDetected = True, difficulty = 1560133 / 120000,
         spawnTimer = 3334 / 25, lastTime = 513336 / 100, startTime = 1000000\<rparr>,
      paused = False, running = True\<rparr>, [])"
  by (simp add: tunnel_after_def tunnel_prefix_def tunnel_last_def world_init_def engine_init_def
      tick_eval)

lemma step_le: "step dt \<le> 32 / 16.67"
  by (simp add: step_def)

lemma displacement_le:
  assumes "0 \<le> s * g * d"
  shows "s * step dt * g * d \<le> s * (32 / 16.67) * g * d"
proof -
  have "step dt * (s * g * d) \<le> (32 / 16.67) * (s * g * d)"
    using step_le [of dt] assms by (rule mult_right_mono)
  then show ?thesis
    by (simp add: mult_ac)
qed

lemma loop_objects_explicit:
  "objects (fst (loop st th td False time now dr e)) =
     filter (\<lambda>obj. \<not> hit (paddle_px (handX e)) obj)
       (filter (\<lambda>obj. obj_y obj < 650)
          (map (\<lambda>obj. obj\<lparr>obj_y := obj_y obj
                   + obj_speed obj * (min (time - lastTime e) 32 / 16.67) * gravityMult td * difficulty e\<rparr>)
             (objects e))
        @ (if spawnTimer e + (time - lastTime e) > spawnRate st (score e)
           then [spawn_object td dr] else []))"
  by (simp only: loop_objects before_collisions_objects update_objects_def step_def)

lemma run_Cons:
  "run st th td mode w (i # ins) =
     (fst (run st th td mode (fst (dispatch st th td mode w i)) ins),
      snd (dispatch st th td mode w i) @ snd (run st th td mode (fst (dispatch st th td mode w i)) ins))"
  by (simp add: case_prod_beta)

lemma run_append:
  "run st th td mode w (xs @ ys) =
     (fst (run st th td mode (fst (run st th td mode w xs)) ys),
      snd (run st th td mode w xs) @ snd (run st th td mode (fst (run st th td mode w xs)) ys))"
  by (induction xs arbitrary: w) (simp_all add: run_Cons del: run.simps(2))

lemma dispatch_paused_frame:
  assumes "running w" "paused w"
  shows "dispatch st th td mode w (AnimationFrame time now dr) = (w, [])"
proof -
  have "w\<lparr>eng := eng w, running := True\<rparr> = w"
    using assms by (cases w) simp
  then show ?thesis
    using assms by (simp add: dispatch_def loop_paused)
qed

lemma run_paused_frames:
  assumes "running w" "paused w"
  shows "run st th td mode w (frames fs) = (w, [])"
proof (induction fs)
  case Nil
  show ?case by (simp add: frames_def)
next
  case (Cons f fs)
  have "frames (f # fs) = AnimationFrame (fst f) (fst (snd f)) (snd (snd f)) # frames fs"
    by (simp add: frames_def)
  then show ?case
    using Cons dispatch_paused_frame [OF assms] by (simp add: run_Cons del: run.simps(2))
qed

lemma dispatch_TogglePause:
  "running w \<Longrightarrow> dispatch st th td mode w TogglePause = (w\<lparr>paused := \<not> paused w\<rparr>, [])"
  by (simp add: dispatch_def)

lemma dispatch_running_frame:
  assumes "running w" "\<not> paused w"
  shows "dispatch st th td mode w (AnimationFrame time now dr) =
     (w\<lparr>eng := fst (loop st th td False time now dr (eng w)),
        running := snd (snd (loop st th td False time now dr (eng w)))\<rparr>,
      fst (snd (loop st th td False time now dr (eng w))))"
  using assms by (simp add: dispatch_def case_prod_beta)

lemma run_resume:
  assumes "running w" "paused w"
  shows "run st th td mode w (frames fs @ [TogglePause, AnimationFrame time now dr]) =
     (w\<lparr>paused := False,
        eng := fst (loop st th td False time now dr (eng w)),
        running := snd (snd (loop st th td False time now dr (eng w)))\<rparr>,
      fst (snd (loop st th td False time now dr (eng w))))"
proof -
  let ?w = "w\<lparr>paused := False\<rparr>"
  have t: "dispatch st th td mode w TogglePause = (?w, [])"
    using assms by (simp add: dispatch_TogglePause)
  have r: "running ?w" "\<not> paused ?w" "eng ?w = eng w"
    using assms by simp_all
  have f: "dispatch st th td mode ?w (AnimationFrame time now dr) =
     (?w\<lparr>eng := fst (loop st th td False time now dr (eng w)),
        running := snd (snd (loop st th td False time now dr (eng w)))\<rparr>,
      fst (snd (loop st th td False time now dr (eng w))))"
    using dispatch_running_frame [OF r(1) r(2), of st th td mode time now dr] r(3) by simp
  show ?thesis
    by (simp add: run_append run_paused_frames [OF assms] run_Cons t f del: run.simps(2))
qed

lemma pause_w1_value:
  "pause_w1 =
     \<lparr>eng =
        \<lparr>score = 0, lives = 5, combo = 0,
         objects = [\<lparr>obj_id = 0.25, obj_x = 400, obj_y = - 50, obj_radius = 20, obj_speed = 5.5,
                     obj_type = GOOD, obj_variant = Some ''puzzle''\<rparr>],
         handX = 0.5, isHandDetected = True, difficulty = 1.0001, spawnTimer = 0,
         lastTime = 5000, startTime = 1000000\<rparr>,
      paused = False, running = True\<rparr>"
  by (simp add: pause_w1_def world_init_def engine_init_def tick_eval)

lemma pause_w2_value: "pause_w2 = pause_w1\<lparr>paused := True\<rparr>"
  by (simp add: pause_w2_def pause_w1_value tick_eval)

lemma pause_w3_value:
  "pause_w3 =
     \<lparr>eng =
        \<lparr>score = 0, lives = 5, combo = 0,
         objects = [\<lparr>obj_id = 0.25, obj_x = 400, obj_y = - 50 + 5.5 * (32 / 16.67) * 1 * 1.0001,
                     obj_radius = 20, obj_speed = 5.5,
                     obj_type = GOOD, obj_variant = Some ''puzzle''\<rparr>],
         handX = 0.5, isHandDetected = True, difficulty = 1 + 1012 / 120000, spawnTimer = 1000,
         lastTime = 6000, startTime = 1000000\<rparr>,
      paused = False, running = True\<rparr>"
  by (simp add: pause_w3_def pause_w2_value pause_w1_value tick_eval)

lemma filter_is_hit_event_map:
  "filter is_hit_event (map (hit_event th) objs) = map (hit_event th) objs"
  by (induction objs) (simp_all add: hit_event_def)

lemma run_stopped: "\<not> running w \<Longrightarrow> run st th td mode w ins = (w, [])"
  by (induction ins) (simp_all add: run_Cons dispatch_def del: run.simps(2))

lemma dispatch_quiet:
  assumes "running w" and "paused w \<or> (\<forall>time now dr. i \<noteq> AnimationFrame time now dr)"
  shows "snd (dispatch st th td mode w i) = []"
    and "running (fst (dispatch st th td mode w i))"
    and "lives (eng (fst (dispatch st th td mode w i))) = lives (eng w)"
    and "score (eng (fst (dispatch st th td mode w i))) = score (eng w)"
    and "combo (eng (fst (dispatch st th td mode w i))) = combo (eng w)"
  using assms
  by (cases i; simp add: dispatch_def loop_paused handleHandUpdate_def handleMove_def
      split: option.splits)+

lemma run_after_stop:
  "\<not> running (fst (run st th td mode w ins)) \<Longrightarrow>
     run st th td mode w (ins @ rest) = run st th td mode w ins"
  by (simp add: run_append run_stopped)

lemma hazard_run_value:
  "snd (run (DIFFICULTY_SETTINGS EASY) MIND_LAB (THEME_DATA MIND_LAB) VISION hazard_world hazard_frames) =
     [PlayHazard MIND_LAB, PlayHazard MIND_LAB, PlayHazard MIND_LAB, PlayHazard MIND_LAB,
      PlayHazard MIND_LAB, GameOver 0]"
  by (simp add: hazard_world_def hazard_frames_def sample_engine_def object_at_def tick_eval)

lemma loop_combo:
  "combo (fst (loop st th td False time now dr e)) =
     combo (fst (collision_stage st th (before_collisions st td time dr e)))"
  by (simp add: loop_running_fst difficulty_stage_def)

lemma loop_score_mono:
  assumes "0 \<le> combo e"
  shows "score e \<le> score (fst (loop st th td pz time now dr e))
    \<and> 0 \<le> combo (fst (loop st th td pz time now dr e))"
proof (cases pz)
  case True
  then show ?thesis using assms by (simp add: loop_paused)
next
  case False
  let ?B = "before_collisions st td time dr e"
  have "0 \<le> combo ?B"
    using assms by (simp add: before_collisions_frame)
  from resolve_score_mono [OF this, of st th "paddle_px (handX ?B)" "objects ?B"]
  show ?thesis
    using False by (simp add: loop_score loop_combo collision_stage_fst before_collisions_frame)
qed

lemma dispatch_score_mono:
  assumes "0 \<le> combo (eng w)"
  shows "score (eng w) \<le> score (eng (fst (dispatch st th td mode w i)))
    \<and> 0 \<le> combo (eng (fst (dispatch st th td mode w i)))"
proof (cases "running w")
  case False
  then show ?thesis using assms by (simp add: dispatch_def)
next
  case True
  show ?thesis
  proof (cases i)
    case (AnimationFrame time now dr)
    then show ?thesis
      using True loop_score_mono [OF assms, of st th td "paused w" time now dr]
      by (simp add: dispatch_def case_prod_beta)
  next
    case (HandUpdate x detected)
    then show ?thesis
      using True assms by (simp add: dispatch_def handleHandUpdate_def)
  next
    case (MouseMove clientX rect)
    then show ?thesis
      using True assms by (simp add: dispatch_def handleMove_def split: option.splits)
  next
    case TogglePause
    then show ?thesis
      using True assms by (simp add: dispatch_def)
  qed
qed

lemma run_score_mono:
  "0 \<le> combo (eng w) \<Longrightarrow>
     score (eng w) \<le> score (eng (fst (run st th td mode w ins)))
     \<and> 0 \<le> combo (eng (fst (run st th td mode w ins)))"
proof (induction ins arbitrary: w)
  case Nil
  then show ?case by simp
next
  case (Cons i ins)
  let ?w1 = "fst (dispatch st th td mode w i)"
  have 1: "score (eng w) \<le> score (eng ?w1)" and c: "0 \<le> combo (eng ?w1)"
    using dispatch_score_mono [OF Cons.prems, of st th td mode i] by simp_all
  from Cons.IH [OF c] 1 show ?case
    by (simp add: run_Cons del: run.simps(2))
qed

lemma on_hit_good:
  assumes "0 \<le> combo e" "obj_type obj = GOOD"
  shows "score (fst (on_hit st th obj e)) = score e + 5 + of_int \<lfloor>combo e / 4\<rfloor>"
    and "score e < score (fst (on_hit st th obj e))"
    and "combo (fst (on_hit st th obj e)) = combo e + 1"
    and "lives (fst (on_hit st th obj e)) = lives e"
proof -
  have "(0::int) \<le> \<lfloor>combo e / 4\<rfloor>" using assms by simp
  then have "(0::real) < 5 + of_int \<lfloor>combo e / 4\<rfloor>" by linarith
  then show "score e < score (fst (on_hit st th obj e))"
    using assms(2) by (simp add: on_hit_def)
qed (simp_all add: assms on_hit_def)

lemma on_hit_bad:
  assumes "obj_type obj = BAD"
  shows "score (fst (on_hit st th obj e)) = score e"
    and "lives (fst (on_hit st th obj e)) = lives e - hazardPenalty st"
    and "combo (fst (on_hit st th obj e)) = 0"
  using assms by (simp_all add: on_hit_def)

lemma count_hit_events_hazard:
  "count_list (map (hit_event th) (filter (hit px) objs)) (PlayHazard th) =
     length (filter (\<lambda>obj. hit px obj \<and> obj_type obj \<noteq> GOOD) objs)"
  by (induction objs) (simp_all add: hit_event_def)

lemma count_hit_events_collect:
  "count_list (map (hit_event th) (filter (hit px) objs)) (PlayCollect th) = 0 \<Longrightarrow>
     \<forall>obj \<in> set objs. hit px obj \<longrightarrow> obj_type obj \<noteq> GOOD"
proof (intro ballI impI)
  fix obj
  assume c: "count_list (map (hit_event th) (filter (hit px) objs)) (PlayCollect th) = 0"
    and obj: "obj \<in> set objs" "hit px obj"
  from c have n: "PlayCollect th \<notin> set (map (hit_event th) (filter (hit px) objs))"
    by (rule count_list_0_iff [THEN iffD1])
  show "obj_type obj \<noteq> GOOD"
  proof
    assume "obj_type obj = GOOD"
    then have "hit_event th obj = PlayCollect th"
      by (simp add: hit_event_def)
    moreover have "hit_event th obj \<in> set (map (hit_event th) (filter (hit px) objs))"
      using obj by simp
    ultimately show False
      using n by simp
  qed
qed

lemma loop_count_hazard:
  "count_list (fst (snd (loop st th td False time now dr e))) (PlayHazard th) =
     length (filter (\<lambda>obj. hit (paddle_px (handX e)) obj \<and> obj_type obj \<noteq> GOOD)
       (objects (before_collisions st td time dr e)))"
  by (simp add: loop_events count_hit_events_hazard)

lemma loop_lives_count:
  "lives (fst (loop st th td False time now dr e)) =
     lives e - hazardPenalty st
       * real (count_list (fst (snd (loop st th td False time now dr e))) (PlayHazard th))"
proof -
  let ?B = "before_collisions st td time dr e"
  have "lives (fst (loop st th td False time now dr e)) =
      lives (snd (snd (resolve st th (paddle_px (handX e)) (objects ?B) ?B)))"
    by (simp add: loop_lives collision_stage_fst before_collisions_handX)
  then show ?thesis
    by (simp only: loop_count_hazard resolve_lives before_collisions_frame)
qed

lemma loop_score_no_collect:
  assumes "count_list (fst (snd (loop st th td False time now dr e))) (PlayCollect th) = 0"
  shows "score (fst (loop st th td False time now dr e)) = score e"
proof -
  let ?B = "before_collisions st td time dr e"
  let ?px = "paddle_px (handX e)"
  have "count_list (map (hit_event th) (filter (hit ?px) (objects ?B))) (PlayCollect th) = 0"
    using assms by (simp add: loop_events)
  then have all: "\<forall>obj \<in> set (objects ?B). hit ?px obj \<longrightarrow> obj_type obj \<noteq> GOOD"
    by (rule count_hit_events_collect)
  have "score (fst (loop st th td False time now dr e)) =
      score (snd (snd (resolve st th ?px (objects ?B) ?B)))"
    by (simp add: loop_score collision_stage_fst before_collisions_handX)
  also have "\<dots> = score ?B"
    using all by (rule resolve_score_no_good)
  finally show ?thesis
    by (simp add: before_collisions_frame)
qed

lemma dispatch_lives_count:
  "lives (eng (fst (dispatch st th td mode w i))) =
     lives (eng w) - hazardPenalty st
       * real (count_list (snd (dispatch st th td mode w i)) (PlayHazard th))"
proof (cases "running w \<and> \<not> paused w \<and> (\<exists>time now dr. i = AnimationFrame time now dr)")
  case True
  then obtain time now dr where i: "i = AnimationFrame time now dr" by auto
  have "dispatch st th td mode w i =
      (w\<lparr>eng := fst (loop st th td False time now dr (eng w)),
         running := snd (snd (loop st th td False time now dr (eng w)))\<rparr>,
       fst (snd (loop st th td False time now dr (eng w))))"
    unfolding i using True by (intro dispatch_running_frame) simp_all
  then show ?thesis
    by (simp add: loop_lives_count)
next
  case False
  show ?thesis
  proof (cases "running w")
    case True
    with False have "paused w \<or> (\<forall>time now dr. i \<noteq> AnimationFrame time now dr)"
      by auto
    from dispatch_quiet [OF True this, of st th td mode] show ?thesis
      by simp
  next
    case False
    then show ?thesis by (simp add: dispatch_def)
  qed
qed

lemma dispatch_score_no_collect:
  assumes "count_list (snd (dispatch st th td mode w i)) (PlayCollect th) = 0"
  shows "score (eng (fst (dispatch st th td mode w i))) = score (eng w)"
proof (cases "running w \<and> \<not> paused w \<and> (\<exists>time now dr. i = AnimationFrame time now dr)")
  case True
  then obtain time now dr where i: "i = AnimationFrame time now dr" by auto
  have d: "dispatch st th td mode w i =
      (w\<lparr>eng := fst (loop st th td False time now dr (eng w)),
         running := snd (snd (loop st th td False time now dr (eng w)))\<rparr>,
       fst (snd (loop st th td False time now dr (eng w))))"
    unfolding i using True by (intro dispatch_running_frame) simp_all
  then have "count_list (fst (snd (loop st th td False time now dr (eng w)))) (PlayCollect th) = 0"
    using assms by simp
  then show ?thesis
    by (simp add: d loop_score_no_collect)
next
  case False
  show ?thesis
  proof (cases "running w")
    case True
    with False have "paused w \<or> (\<forall>time now dr. i \<noteq> AnimationFrame time now dr)"
      by auto
    from dispatch_quiet [OF True this, of st th td mode] show ?thesis
      by simp
  next
    case False
    then show ?thesis by (simp add: dispatch_def)
  qed
qed

lemma run_lives_count:
  "lives (eng (fst (run st th td mode w ins))) =
     lives (eng w) - hazardPenalty st
       * real (count_list (snd (run st th td mode w ins)) (PlayHazard th))"
proof (induction ins arbitrary: w)
  case Nil
  show ?case by simp
next
  case (Cons i ins)
  let ?w1 = "fst (dispatch st th td mode w i)"
  have 1: "lives (eng ?w1) = lives (eng w) - hazardPenalty st
       * real (count_list (snd (dispatch st th td mode w i)) (PlayHazard th))"
    by (rule dispatch_lives_count)
  have 2: "lives (eng (fst (run st th td mode ?w1 ins))) = lives (eng ?w1) - hazardPenalty st
       * real (count_list (snd (run st th td mode ?w1 ins)) (PlayHazard th))"
    by (rule Cons.IH)
  have "lives (eng (fst (run st th td mode w (i # ins)))) =
      lives (eng (fst (run st th td mode ?w1 ins)))"
    by (simp only: run_Cons fst_conv)
  moreover have "count_list (snd (run st th td mode w (i # ins))) (PlayHazard th) =
      count_list (snd (dispatch st th td mode w i)) (PlayHazard th)
      + count_list (snd (run st th td mode ?w1 ins)) (PlayHazard th)"
    by (simp only: run_Cons snd_conv count_list_append)
  ultimately show ?case
    using 1 2 by (simp only: of_nat_add) (simp add: algebra_simps)
qed

lemma run_score_no_collect:
  "count_list (snd (run st th td mode w ins)) (PlayCollect th) = 0 \<Longrightarrow>
     score (eng (fst (run st th td mode w ins))) = score (eng w)"
proof (induction ins arbitrary: w)
  case Nil
  show ?case by simp
next
  case (Cons i ins)
  let ?w1 = "fst (dispatch st th td mode w i)"
  have "count_list (snd (dispatch st th td mode w i)) (PlayCollect th)
      + count_list (snd (run st th td mode ?w1 ins)) (PlayCollect th) = 0"
    using Cons.prems by (simp only: run_Cons snd_conv count_list_append)
  then have c: "count_list (snd (dispatch st th td mode w i)) (PlayCollect th) = 0"
    "count_list (snd (run st th td mode ?w1 ins)) (PlayCollect th) = 0"
    by simp_all
  have "score (eng (fst (run st th td mode w (i # ins)))) =
      score (eng (fst (run st th td mode ?w1 ins)))"
    by (simp only: run_Cons fst_conv)
  also have "\<dots> = score (eng ?w1)"
    using c(2) by (rule Cons.IH)
  also have "\<dots> = score (eng w)"
    using c(1) by (rule dispatch_score_no_collect)
  finally show ?case .
qed

lemma loop_events_alive:
  "0 < lives (fst (loop st th td False time now dr e)) \<Longrightarrow>
     filter is_hit_event (fst (snd (loop st th td False time now dr e))) =
       fst (snd (loop st th td False time now dr e))"
  by (simp add: loop_events filter_is_hit_event_map)

lemma loop_events_over:
  "lives (fst (loop st th td False time now dr e)) \<le> 0 \<Longrightarrow>
     filter is_hit_event (fst (snd (loop st th td False time now dr e)))
       @ [GameOver \<lfloor>score (fst (loop st th td False time now dr e))\<rfloor>] =
       fst (snd (loop st th td False time now dr e))"
  by (simp add: loop_events filter_is_hit_event_map)

lemma hits_then_tail:
  assumes "ev1 = filter P ev1" and "evs2 = filter P evs2 @ t"
  shows "ev1 @ evs2 = filter P (ev1 @ evs2) @ t"
proof -
  have "filter P (ev1 @ evs2) @ t = filter P ev1 @ (filter P evs2 @ t)"
    by simp
  also have "\<dots> = ev1 @ evs2"
    by (simp only: assms(1) [symmetric] assms(2) [symmetric])
  finally show ?thesis by (rule sym)
qed

lemma run_shape:
  "running w \<Longrightarrow> 0 < lives (eng w) \<Longrightarrow>
     (running (fst (run st th td mode w ins)) \<longleftrightarrow> 0 < lives (eng (fst (run st th td mode w ins))))
     \<and> snd (run st th td mode w ins) =
         filter is_hit_event (snd (run st th td mode w ins))
         @ (if running (fst (run st th td mode w ins)) then []
            else [GameOver \<lfloor>score (eng (fst (run st th td mode w ins)))\<rfloor>])"
proof (induction ins arbitrary: w)
  case Nil
  then show ?case by simp
next
  case (Cons i ins)
  let ?w1 = "fst (dispatch st th td mode w i)"
  let ?ev1 = "snd (dispatch st th td mode w i)"
  let ?w2 = "fst (run st th td mode ?w1 ins)"
  let ?ev2 = "snd (run st th td mode ?w1 ins)"
  let ?t = "\<lambda>w'. if running w' then [] else [GameOver \<lfloor>score (eng w')\<rfloor>]"
  have f: "fst (run st th td mode w (i # ins)) = ?w2"
    and s: "snd (run st th td mode w (i # ins)) = ?ev1 @ ?ev2"
    by (simp_all only: run_Cons fst_conv snd_conv)
  have step: "(running ?w2 \<longleftrightarrow> 0 < lives (eng ?w2)) \<and> ?ev1 @ ?ev2 = filter is_hit_event (?ev1 @ ?ev2) @ ?t ?w2"
  proof (cases "paused w \<or> (\<forall>time now dr. i \<noteq> AnimationFrame time now dr)")
    case True
    note Q = dispatch_quiet [OF Cons.prems(1) True, of st th td mode]
    have l: "0 < lives (eng ?w1)"
      using Q(3) Cons.prems(2) by simp
    note IH = Cons.IH [OF Q(2) l]
    from IH have r: "running ?w2 \<longleftrightarrow> 0 < lives (eng ?w2)" and e: "?ev2 = filter is_hit_event ?ev2 @ ?t ?w2"
      by blast+
    have "?ev1 = filter is_hit_event ?ev1"
      by (simp only: Q(1) filter.simps)
    from hits_then_tail [OF this e] r show ?thesis by blast
  next
    case False
    then obtain time now dr where i: "i = AnimationFrame time now dr" and np: "\<not> paused w"
      by auto
    let ?L = "loop st th td False time now dr (eng w)"
    have d: "dispatch st th td mode w i =
        (w\<lparr>eng := fst ?L, running := snd (snd ?L)\<rparr>, fst (snd ?L))"
      unfolding i using Cons.prems(1) np by (rule dispatch_running_frame)
    have ev1: "?ev1 = fst (snd ?L)" and e1: "eng ?w1 = fst ?L" and r1: "running ?w1 = snd (snd ?L)"
      by (simp_all add: d)
    show ?thesis
    proof (cases "0 < lives (fst ?L)")
      case True
      then have go: "running ?w1" and l: "0 < lives (eng ?w1)"
        by (simp_all add: r1 e1 loop_again)
      have "filter is_hit_event (fst (snd ?L)) = fst (snd ?L)"
        using True by (rule loop_events_alive)
      then have quiet: "?ev1 = filter is_hit_event ?ev1"
        unfolding ev1 by (rule sym)
      note IH = Cons.IH [OF go l]
      from IH have r: "running ?w2 \<longleftrightarrow> 0 < lives (eng ?w2)" and e: "?ev2 = filter is_hit_event ?ev2 @ ?t ?w2"
        by blast+
      from hits_then_tail [OF quiet e] r show ?thesis by blast
    next
      case False
      then have stop: "\<not> running ?w1"
        by (simp add: r1 loop_again)
      then have rest: "run st th td mode ?w1 ins = (?w1, [])"
        by (rule run_stopped)
      then have w2: "?w2 = ?w1" and ev2: "?ev2 = []"
        by simp_all
      have le: "lives (fst ?L) \<le> 0"
        using False by simp
      have "filter is_hit_event (fst (snd ?L)) @ [GameOver \<lfloor>score (fst ?L)\<rfloor>] = fst (snd ?L)"
        using le by (rule loop_events_over)
      then have a: "filter is_hit_event ?ev1 @ [GameOver \<lfloor>score (eng ?w1)\<rfloor>] = ?ev1"
        unfolding ev1 e1 .
      have b: "?t ?w1 = [GameOver \<lfloor>score (eng ?w1)\<rfloor>]"
        using stop by simp
      have c: "?ev1 @ [] = filter is_hit_event (?ev1 @ []) @ ?t ?w1"
        unfolding b append_Nil2 using a by (rule sym)
      have r: "running ?w1 \<longleftrightarrow> 0 < lives (eng ?w1)"
        using stop False by (simp add: e1)
      show ?thesis
        unfolding w2 ev2 using r c by (rule conjI)
    qed
  qed
  show ?case
    unfolding f s by (rule step)
qed

lemma count_list_filter_hit_event:
  "is_hit_event x \<Longrightarrow> count_list (filter is_hit_event xs) x = count_list xs x"
  by (induction xs) auto

lemma count_list_replicate_same: "count_list (replicate n a) a = n"
  by (induction n) simp_all

lemma count_list_replicate_other: "a \<noteq> b \<Longrightarrow> count_list (replicate n a) b = 0"
  by (induction n) simp_all

lemma hazard_first_frame_value:
  "run (DIFFICULTY_SETTINGS EASY) MIND_LAB (THEME_DATA MIND_LAB) VISION hazard_world
     [AnimationFrame 1016.67 17 sample_draws] =
   (\<lparr>eng =
       \<lparr>score = 0, lives = 2, combo = 0,
        objects = [object_at 380 490 BAD, object_at 420 490 BAD],
        handX = 0.5, isHandDetected = True, difficulty = 1 + 17 / 120000,
        spawnTimer = 16.67, lastTime = 1016.67, startTime = 0\<rparr>,
     paused = False, running = True\<rparr>,
    [PlayHazard MIND_LAB, PlayHazard MIND_LAB, PlayHazard MIND_LAB])"
  by (simp add: hazard_world_def sample_engine_def object_at_def tick_eval)

lemma late_good_run_value:
  "snd (run (DIFFICULTY_SETTINGS EASY) MIND_LAB (THEME_DATA MIND_LAB) VISION late_good_world
     [AnimationFrame 1016.67 17 sample_draws]) =
     [PlayHazard MIND_LAB, PlayHazard MIND_LAB, PlayHazard MIND_LAB, PlayHazard MIND_LAB,
      PlayHazard MIND_LAB, PlayCollect MIND_LAB, GameOver 5]"
  by (simp add: late_good_world_def sample_engine_def object_at_def tick_eval)

lemma six_hazards_run_value:
  "run (DIFFICULTY_SETTINGS EASY) MIND_LAB (THEME_DATA MIND_LAB) VISION six_hazards_world
     [AnimationFrame 1016.67 17 sample_draws] =
   (\<lparr>eng =
       \<lparr>score = 0, lives = - 1, combo = 0, objects = [],
        handX = 0.5, isHandDetected = True, difficulty = 1 + 17 / 120000,
        spawnTimer = 16.67, lastTime = 1016.67, startTime = 0\<rparr>,
     paused = False, running = False\<rparr>,
    [PlayHazard MIND_LAB, PlayHazard MIND_LAB, PlayHazard MIND_LAB, PlayHazard MIND_LAB,
     PlayHazard MIND_LAB, PlayHazard MIND_LAB, GameOver 0])"
  by (simp add: six_hazards_world_def sample_engine_def object_at_def tick_eval)

section \<open>The filter on a literal input\<close>

text \<open>
  C5. One update of the filter from the initial state \<open>x = 0.5\<close>, \<open>p = 1.0\<close>,
  \<open>q = 0.08\<close>, \<open>r = 0.04\<close> with the measurement \<open>1.0\<close>: the variance before the
  correction is \<open>1.08\<close>, the gain is \<open>1.08 / 1.12\<close>, which is \<open>0.9643\<close> to four
  decimals, and the new estimate is \<open>0.5 + gain * 0.5\<close>, which is \<open>0.9821\<close> to four
  decimals.
\<close>

theorem kalman_literal_update:
  "predicted_p kalmanX = 1.08
   \<and> gain kalmanX = 1.08 / 1.12
   \<and> \<bar>gain kalmanX - 0.9643\<bar> < 0.00005
   \<and> kx (kalman_update kalmanX 1.0) = 0.5 + gain kalmanX * 0.5
   \<and> \<bar>kx (kalman_update kalmanX 1.0) - 0.9821\<bar> < 0.00005"
  by (simp add: kalman_update_def gain_def predicted_p_def kalmanX_def)

section \<open>Gain and convergence of the filter\<close>

text \<open>
  C6. For all \<open>q > 0\<close> and \<open>r > 0\<close>, in every state \<open>k\<close> the tracker reaches from its
  initial state over any sequence of camera frames, the gain of the next update lies
  strictly between 0 and 1. When the same measurement \<open>z\<close> is then repeated, the gain of
  every one of these updates is strictly between 0 and 1, each new estimate lies between
  the previous estimate and \<open>z\<close> (it moves toward \<open>z\<close> and never passes it), the distance
  to \<open>z\<close> never grows, and the estimates converge to \<open>z\<close>.
\<close>

theorem filter_gain_and_convergence:
  assumes "0 < q" and "0 < r"
    and "k = fst (processFrames (kalmanX\<lparr>kq := q, kr := r\<rparr>) fs)"
  shows "0 < gain k \<and> gain k < 1
    \<and> (\<forall>n. 0 < gain (repeat_update n z k) \<and> gain (repeat_update n z k) < 1)
    \<and> (\<forall>n. (kx (repeat_update n z k) \<le> z \<longrightarrow>
              kx (repeat_update n z k) \<le> kx (repeat_update (Suc n) z k)
              \<and> kx (repeat_update (Suc n) z k) \<le> z)
           \<and> (z \<le> kx (repeat_update n z k) \<longrightarrow>
              z \<le> kx (repeat_update (Suc n) z k)
              \<and> kx (repeat_update (Suc n) z k) \<le> kx (repeat_update n z k)))
    \<and> (\<forall>n. \<bar>kx (repeat_update (Suc n) z k) - z\<bar> \<le> \<bar>kx (repeat_update n z k) - z\<bar>)
    \<and> (\<lambda>n. kx (repeat_update n z k)) \<longlonglongrightarrow> z"
proof -
  let ?k0 = "kalmanX\<lparr>kq := q, kr := r\<rparr>"
  have k0: "0 \<le> kp ?k0" "0 < kq ?k0" "0 < kr ?k0"
    using assms by (simp_all add: kalmanX_def)
  have inv: "0 \<le> kp k" "0 < kq k" "0 < kr k"
    using processFrames_inv [OF k0, of fs] assms by simp_all
  have g: "0 < gain k \<and> gain k < 1"
    using gain_bounds [OF inv] by simp
  have gn: "0 < gain (repeat_update n z k) \<and> gain (repeat_update n z k) < 1" for n
  proof -
    have "0 \<le> kp (repeat_update n z k)" "0 < kq (repeat_update n z k)"
      "0 < kr (repeat_update n z k)"
      using repeat_update_inv [OF inv, of n z] inv by simp_all
    then show ?thesis using gain_bounds by simp
  qed
  show ?thesis
    using g gn repeat_update_between [OF inv, of _ z] repeat_update_abs_mono [OF inv, of _ z]
      repeat_update_tendsto [OF inv, of z]
    by blast
qed

theorem filter_gain_and_convergence_witness:
  "(0::real) < 0.08 \<and> (0::real) < 0.04
   \<and> 0 < gain kalmanX \<and> gain kalmanX < 1
   \<and> kx (repeat_update 0 1 kalmanX) \<le> kx (repeat_update (Suc 0) 1 kalmanX)
   \<and> kx (repeat_update (Suc 0) 1 kalmanX) \<le> 1
   \<and> (\<lambda>n. kx (repeat_update n 1 kalmanX)) \<longlonglongrightarrow> 1"
proof -
  have q: "(0::real) < 0.08" and r: "(0::real) < 0.04" by simp_all
  have k: "kalmanX = fst (processFrames (kalmanX\<lparr>kq := 0.08, kr := 0.04\<rparr>) [])"
    by (simp add: kalmanX_def)
  have x: "kx (repeat_update 0 1 kalmanX) \<le> 1"
    by (simp add: repeat_update_def kalmanX_def)
  show ?thesis
    using filter_gain_and_convergence [OF q r k, of 1] x by simp
qed

section \<open>Sensor dropout\<close>

text \<open>
  C7. In filtered mode, a camera frame with at most 8 qualifying pixels (the update needs
  \<^verbatim>\<open>count > 8\<close>) performs no filter update: the filter state is unchanged, the
  estimate reported is the previous one and the report says not detected; this holds over
  any run of such frames. A frame for which the video is not ready leaves the state
  unchanged too and reports nothing. The game takes the report into \<^verbatim>\<open>handX\<close> and
  \<^verbatim>\<open>isHandDetected\<close> and goes on: a tick computes the same engine, events and
  rescheduling whatever the detection flag is.
\<close>

theorem dropout_holds_estimate:
  "(snd (scan 0 data (0, 0)) \<le> 8 \<longrightarrow>
      processFrame k (Image data) = (k, Some (kx k, False), True))
   \<and> ((\<forall>f \<in> set fs. \<exists>data. f = Image data \<and> snd (scan 0 data (0, 0)) \<le> 8) \<longrightarrow>
      processFrames k fs = (k, replicate (length fs) (Some (kx k, False))))
   \<and> processFrame k NotReady = (k, None, True)
   \<and> (running w \<longrightarrow>
      dispatch st th td VISION w (HandUpdate (kx k) False) =
        (w\<lparr>eng := (eng w)\<lparr>handX := kx k, isHandDetected := False\<rparr>\<rparr>, []))
   \<and> loop st th td pz time now dr (e\<lparr>isHandDetected := False\<rparr>) =
        ((fst (loop st th td pz time now dr e))\<lparr>isHandDetected := False\<rparr>,
         snd (loop st th td pz time now dr e))"
proof (intro conjI impI)
  show one: "processFrame k (Image data) = (k, Some (kx k, False), True)"
    if "snd (scan 0 data (0, 0)) \<le> 8" for data
    using that by (simp add: processFrame_def case_prod_beta)
  show "processFrames k fs = (k, replicate (length fs) (Some (kx k, False)))"
    if "\<forall>f \<in> set fs. \<exists>data. f = Image data \<and> snd (scan 0 data (0, 0)) \<le> 8"
    using that
  proof (induction fs)
    case Nil
    show ?case by simp
  next
    case (Cons f fs)
    then obtain data where "f = Image data" "snd (scan 0 data (0, 0)) \<le> 8"
      by auto
    then have "processFrame k f = (k, Some (kx k, False), True)"
      using one by simp
    with Cons show ?case by simp
  qed
  show "processFrame k NotReady = (k, None, True)"
    by (simp add: processFrame_def)
  show "dispatch st th td VISION w (HandUpdate (kx k) False) =
        (w\<lparr>eng := (eng w)\<lparr>handX := kx k, isHandDetected := False\<rparr>\<rparr>, [])"
    if "running w"
    using that by (simp add: dispatch_def handleHandUpdate_def)
  show "loop st th td pz time now dr (e\<lparr>isHandDetected := False\<rparr>) =
        ((fst (loop st th td pz time now dr e))\<lparr>isHandDetected := False\<rparr>,
         snd (loop st th td pz time now dr e))"
    by (rule loop_isHandDetected)
qed

theorem dropout_holds_estimate_witness:
  "snd (scan 0 [0xFFFFFFFF, 0, 0x00FFFFFF] (0, 0)) \<le> 8
   \<and> processFrame kalmanX (Image [0xFFFFFFFF, 0, 0x00FFFFFF]) = (kalmanX, Some (0.5, False), True)
   \<and> processFrames kalmanX [Image [0xFFFFFFFF, 0, 0x00FFFFFF], Image []] =
        (kalmanX, [Some (0.5, False), Some (0.5, False)])
   \<and> running (world_init (DIFFICULTY_SETTINGS EASY) 0)
   \<and> handX (eng (fst (dispatch (DIFFICULTY_SETTINGS EASY) COSMIC (THEME_DATA COSMIC) VISION
        (world_init (DIFFICULTY_SETTINGS EASY) 0) (HandUpdate (kx kalmanX) False)))) = 0.5"
proof -
  let ?d = "[0xFFFFFFFF, 0, 0x00FFFFFF] :: 32 word list"
  let ?fs = "[Image ?d, Image []]"
  let ?w = "world_init (DIFFICULTY_SETTINGS EASY) 0"
  note T = dropout_holds_estimate [of ?d kalmanX ?fs ?w "DIFFICULTY_SETTINGS EASY" COSMIC
        "THEME_DATA COSMIC" False 0 0 sample_draws "sample_engine []"]
  have c: "snd (scan 0 ?d (0, 0)) \<le> 8"
    by (simp add: brightness_def)
  have fs: "\<forall>f \<in> set ?fs. \<exists>data. f = Image data \<and> snd (scan 0 data (0, 0)) \<le> 8"
    using c by simp
  have r: "running ?w"
    by (simp add: world_init_def)
  have x: "kx kalmanX = 0.5"
    by (simp add: kalmanX_def)
  from T c have p1: "processFrame kalmanX (Image ?d) = (kalmanX, Some (kx kalmanX, False), True)"
    by blast
  from T fs have p2: "processFrames kalmanX ?fs = (kalmanX, replicate (length ?fs) (Some (kx kalmanX, False)))"
    by blast
  from T r have p3: "dispatch (DIFFICULTY_SETTINGS EASY) COSMIC (THEME_DATA COSMIC) VISION ?w
        (HandUpdate (kx kalmanX) False) =
        (?w\<lparr>eng := (eng ?w)\<lparr>handX := kx kalmanX, isHandDetected := False\<rparr>\<rparr>, [])"
    by blast
  have "handX (eng (fst (dispatch (DIFFICULTY_SETTINGS EASY) COSMIC (THEME_DATA COSMIC) VISION ?w
        (HandUpdate (kx kalmanX) False)))) = 0.5"
    by (simp only: p3 fst_conv) (simp add: x)
  moreover have "processFrames kalmanX ?fs = (kalmanX, [Some (0.5, False), Some (0.5, False)])"
    by (simp only: p2) (simp add: x)
  moreover have "processFrame kalmanX (Image ?d) = (kalmanX, Some (0.5, False), True)"
    by (simp only: p1) (simp add: x)
  ultimately show ?thesis
    using c r by blast
qed


section \<open>The spawn interval\<close>

text \<open>
  C8. The spawn interval is \<open>max 200 (spawnRateBase - score * 3)\<close>: it is at least 200 ms
  for every score and every tier, in particular for the medium tier, it does not increase
  when the score increases, and it is the threshold the spawner of a running tick compares
  the advanced timer with.
\<close>

theorem spawn_interval_bounds:
  "spawnRate st sc = max 200 (spawnRateBase st - sc * 3)
   \<and> 200 \<le> spawnRate st sc
   \<and> (sc \<le> sc' \<longrightarrow> spawnRate st sc' \<le> spawnRate st sc)
   \<and> 200 \<le> spawnRate (DIFFICULTY_SETTINGS MEDIUM) sc
   \<and> spawnTimer (fst (loop st th td False time now dr e)) =
        (if spawnTimer e + (time - lastTime e) > spawnRate st (score e) then 0
         else spawnTimer e + (time - lastTime e))"
  using spawnRate_floor [of st sc] spawnRate_floor [of "DIFFICULTY_SETTINGS MEDIUM" sc]
    spawnRate_antimono [of sc sc' st] loop_spawnTimer [of st th td time now dr e]
  by (simp add: spawnRate_def)

theorem spawn_interval_bounds_witness:
  "(100::real) \<le> 300
   \<and> spawnRate (DIFFICULTY_SETTINGS MEDIUM) 100 = 700
   \<and> spawnRate (DIFFICULTY_SETTINGS MEDIUM) 300 = 200
   \<and> spawnRate (DIFFICULTY_SETTINGS MEDIUM) 300 \<le> spawnRate (DIFFICULTY_SETTINGS MEDIUM) 100"
  using spawn_interval_bounds [of "DIFFICULTY_SETTINGS MEDIUM" 100 300 COSMIC "THEME_DATA COSMIC" 0 0
      sample_draws "sample_engine []"]
  by (simp add: spawnRate_def)

section \<open>The boundary of the collision test\<close>

text \<open>
  C2, as amended. The test is strict on all four bounds, on both axes: an object is hit
  exactly when \<open>px < x < px + 140\<close> and \<open>490 < y < 514\<close>, so an object exactly on any
  edge of the paddle (left, right, top or bottom) is not hit. The collision pass keeps
  exactly the objects that are not hit, and plays one sound for each object hit.
\<close>

theorem collision_strict_bounds:
  "(hit px obj \<longleftrightarrow> px < obj_x obj \<and> obj_x obj < px + 140 \<and> 490 < obj_y obj \<and> obj_y obj < 514)
   \<and> (obj_x obj = px \<or> obj_x obj = px + 140 \<or> obj_y obj = 490 \<or> obj_y obj = 514 \<longrightarrow> \<not> hit px obj)
   \<and> fst (resolve st th px objs e) = filter (\<lambda>obj. \<not> hit px obj) objs
   \<and> fst (snd (resolve st th px objs e)) = map (hit_event th) (filter (hit px) objs)
   \<and> objects (fst (loop st th td False time now dr e)) =
        filter (\<lambda>obj. \<not> hit (paddle_px (handX e)) obj) (objects (before_collisions st td time dr e))"
  using hit_iff [of px obj] resolve_kept [of st th px objs e] resolve_events [of st th px objs e]
    loop_objects [of st th td time now dr e]
  by auto

theorem collision_strict_bounds_witness:
  "obj_x (object_at 330 500 GOOD) = 330
   \<and> \<not> hit 330 (object_at 330 500 GOOD)
   \<and> fst (resolve (DIFFICULTY_SETTINGS EASY) COSMIC 330
        [object_at 330 500 GOOD, object_at 400 500 GOOD, object_at 470 500 BAD] (sample_engine []))
      = [object_at 330 500 GOOD, object_at 470 500 BAD]"
proof -
  let ?objs = "[object_at 330 500 GOOD, object_at 400 500 GOOD, object_at 470 500 BAD]"
  note T = collision_strict_bounds [of 330 "object_at 330 500 GOOD" "DIFFICULTY_SETTINGS EASY" COSMIC
      ?objs "sample_engine []" "THEME_DATA COSMIC" 0 0 sample_draws]
  have x: "obj_x (object_at 330 500 GOOD) = 330"
    by (simp add: object_at_def)
  from T x have n: "\<not> hit 330 (object_at 330 500 GOOD)"
    by blast
  from T have "fst (resolve (DIFFICULTY_SETTINGS EASY) COSMIC 330 ?objs (sample_engine []))
      = filter (\<lambda>obj. \<not> hit 330 obj) ?objs"
    by blast
  also have "\<dots> = [object_at 330 500 GOOD, object_at 470 500 BAD]"
    by (simp add: hit_def pw_def ph_def py_def object_at_def)
  finally show ?thesis using x n by blast
qed

text \<open>
  The half-open convention fails on the code: with the paddle centred (\<open>handX = 0.5\<close>, the
  rectangle from 330 to 470 and from 490 to 514) an object exactly on the left edge and
  one exactly on the right edge are both missed, and so are one on the top edge and one on
  the bottom edge, while an object inside is hit.
\<close>

theorem collision_boundary_counterexample:
  "paddle_px 0.5 = 330 \<and> paddle_px 0.5 + pw = 470 \<and> py = 490 \<and> py + ph = 514
   \<and> \<not> hit (paddle_px 0.5) (object_at 330 500 GOOD)
   \<and> \<not> hit (paddle_px 0.5) (object_at 470 500 GOOD)
   \<and> \<not> hit (paddle_px 0.5) (object_at 400 490 GOOD)
   \<and> \<not> hit (paddle_px 0.5) (object_at 400 514 GOOD)
   \<and> hit (paddle_px 0.5) (object_at 400 500 GOOD)"
  by (simp add: hit_def paddle_px_def pw_def ph_def py_def object_at_def)

section \<open>The order of the stages of a tick\<close>

text \<open>
  C3, as amended. A running tick writes the time reference and then runs the Motion
  Updater, the Spawner, the Collision Resolver, the Difficulty Controller and the test
  \<open>lives \<le> 0\<close>, in this order. The Motion Updater multiplies by the difficulty stored in
  the engine, which is the one the previous tick computed (1 before the first tick), so
  the objects after a tick do not depend on the clock value the tick reads; the Spawner
  does not use the multiplier; the multiplier stored by a tick is computed from the score
  after the collisions of that tick; and the frame is requested again exactly when lives
  remain.
\<close>

theorem tick_stage_order:
  "loop st th td False time now dr e =
     termination_check
       (case collision_stage st th
               (spawn_stage st td (time - lastTime e) dr
                  (motion_stage td (time - lastTime e) (e\<lparr>lastTime := time\<rparr>))) of
          (e', evs) \<Rightarrow> (difficulty_stage now e', evs))
   \<and> objects (motion_stage td dt e) = update_objects td (step dt) (difficulty e) (objects e)
   \<and> objects (fst (loop st th td False time now dr e)) =
       objects (fst (loop st th td False time now' dr e))
   \<and> spawn_stage st td dt dr (e\<lparr>difficulty := d\<rparr>) = (spawn_stage st td dt dr e)\<lparr>difficulty := d\<rparr>
   \<and> difficulty (fst (loop st th td False time now dr e)) =
       difficulty_at (score (fst (loop st th td False time now dr e))) now (startTime e)
   \<and> snd (snd (loop st th td False time now dr e)) =
       (0 < lives (fst (loop st th td False time now dr e)))"
proof -
  have "objects (motion_stage td dt e) = update_objects td (step dt) (difficulty e) (objects e)"
    by (simp add: motion_stage_def)
  moreover have "objects (fst (loop st th td False time now dr e)) =
       objects (fst (loop st th td False time now' dr e))"
    by (simp only: loop_objects)
  ultimately show ?thesis
    using loop_stages spawn_stage_difficulty loop_difficulty loop_again
    by simp
qed

theorem tick_stage_order_witness:
  "difficulty order_e2 = difficulty_at (score order_e2) 1120012 (startTime order_e1)
   \<and> difficulty order_e2 = 2.0001"
proof -
  note T = tick_stage_order [where st = "DIFFICULTY_SETTINGS EASY" and th = MIND_LAB
      and td = "THEME_DATA MIND_LAB" and time = 125000 and now = 1120012 and dr = sample_draws
      and e = order_e1 and dt = 0 and now' = 0 and d = 1]
  from T have d: "difficulty order_e2 = difficulty_at (score order_e2) 1120012 (startTime order_e1)"
    unfolding order_e2_def by blast
  have s: "startTime order_e1 = 1000000"
    by (simp add: order_e1_value)
  have "score order_e2 = 0"
    by (simp add: order_e2_def order_e1_value tick_eval)
  with d s have "difficulty order_e2 = 2.0001"
    by (simp add: difficulty_at_def)
  with d show ?thesis by blast
qed

text \<open>
  The multiplier of the motion is not the one of the same tick. In the second of the two
  ticks the stored multiplier is \<open>1.0001\<close>; the Difficulty Controller, run at the start
  of that tick, would give \<open>2.0001\<close>. The object spawned by the first tick falls by
  \<open>5.5 * step * 1 * 1.0001\<close>.
\<close>

theorem motion_multiplier_counterexample:
  "difficulty order_e1 = 1.0001
   \<and> difficulty_at (score order_e1) 1120012 (startTime order_e1) = 2.0001
   \<and> map obj_y (objects order_e1) = [- 50]
   \<and> map obj_y (objects order_e2) = [- 50 + 5.5 * step 120000 * 1 * 1.0001, - 50]
   \<and> map obj_y (objects order_e2) \<noteq> [- 50 + 5.5 * step 120000 * 1 * 2.0001, - 50]"
proof -
  have "map obj_y (objects order_e2) \<noteq> [- 50 + 5.5 * step 120000 * 1 * 2.0001, - 50]"
    by (simp only: order_e2_objects) (simp add: step_def)
  then show ?thesis
    using order_e2_objects by (simp add: order_e1_value difficulty_at_def)
qed

section \<open>The motion step and the clamp\<close>

text \<open>
  C4, as amended. In every running tick every live object moves by
  \<open>y + speed * step * gravityMult * difficulty\<close> with \<open>step = min dt 32 / 16.67\<close> and the
  difficulty stored in the engine; the objects left after the tick are these, without
  those at \<open>y \<ge> 650\<close>, with the spawned object if there is one, without those hit. The
  clamp bounds the displacement of one tick by \<open>speed * (32 / 16.67) * gravityMult *
  difficulty\<close>, and when this bound is below the height 24 of the paddle an object at or
  above the top of the paddle band is not moved to or past its bottom in one tick. The
  bound itself grows with the difficulty and is not below 24 in general.
\<close>

theorem motion_step_and_clamp:
  "objects (fst (loop st th td False time now dr e)) =
     filter (\<lambda>obj. \<not> hit (paddle_px (handX e)) obj)
       (filter (\<lambda>obj. obj_y obj < 650)
          (map (\<lambda>obj. obj\<lparr>obj_y := obj_y obj
                   + obj_speed obj * (min (time - lastTime e) 32 / 16.67) * gravityMult td * difficulty e\<rparr>)
             (objects e))
        @ (if spawnTimer e + (time - lastTime e) > spawnRate st (score e)
           then [spawn_object td dr] else []))
   \<and> (0 \<le> obj_speed obj * gravityMult td * d \<longrightarrow>
        obj_speed obj * step dt * gravityMult td * d
          \<le> obj_speed obj * (32 / 16.67) * gravityMult td * d)
   \<and> (0 \<le> obj_speed obj * gravityMult td * d
        \<and> obj_speed obj * (32 / 16.67) * gravityMult td * d < ph
        \<and> obj_y obj \<le> py \<longrightarrow>
        obj_y obj + obj_speed obj * step dt * gravityMult td * d < py + ph)"
proof (intro conjI impI)
  show "objects (fst (loop st th td False time now dr e)) =
     filter (\<lambda>obj. \<not> hit (paddle_px (handX e)) obj)
       (filter (\<lambda>obj. obj_y obj < 650)
          (map (\<lambda>obj. obj\<lparr>obj_y := obj_y obj
                   + obj_speed obj * (min (time - lastTime e) 32 / 16.67) * gravityMult td * difficulty e\<rparr>)
             (objects e))
        @ (if spawnTimer e + (time - lastTime e) > spawnRate st (score e)
           then [spawn_object td dr] else []))"
    by (rule loop_objects_explicit)
  show "obj_speed obj * step dt * gravityMult td * d
          \<le> obj_speed obj * (32 / 16.67) * gravityMult td * d"
    if "0 \<le> obj_speed obj * gravityMult td * d"
    using that by (rule displacement_le)
  show "obj_y obj + obj_speed obj * step dt * gravityMult td * d < py + ph"
    if h: "0 \<le> obj_speed obj * gravityMult td * d
        \<and> obj_speed obj * (32 / 16.67) * gravityMult td * d < ph
        \<and> obj_y obj \<le> py"
  proof -
    have "obj_speed obj * step dt * gravityMult td * d
          \<le> obj_speed obj * (32 / 16.67) * gravityMult td * d"
      using h by (intro displacement_le) simp
    with h show ?thesis by linarith
  qed
qed

theorem motion_step_and_clamp_witness:
  "(0::real) \<le> obj_speed (object_at 400 480 GOOD) * gravityMult (THEME_DATA MIND_LAB) * 1
   \<and> obj_speed (object_at 400 480 GOOD) * (32 / 16.67) * gravityMult (THEME_DATA MIND_LAB) * 1 < ph
   \<and> obj_y (object_at 400 480 GOOD) \<le> py
   \<and> obj_y (object_at 400 480 GOOD)
       + obj_speed (object_at 400 480 GOOD) * step 16.67 * gravityMult (THEME_DATA MIND_LAB) * 1
       < py + ph"
proof -
  let ?o = "object_at 400 480 GOOD"
  let ?g = "gravityMult (THEME_DATA MIND_LAB)"
  note T = motion_step_and_clamp [where obj = ?o and td = "THEME_DATA MIND_LAB" and d = 1
      and dt = "16.67" and st = "DIFFICULTY_SETTINGS EASY" and th = MIND_LAB and time = 0
      and now = 0 and dr = sample_draws and e = "sample_engine []"]
  have a: "(0::real) \<le> obj_speed ?o * ?g * 1"
    by (simp add: object_at_def)
  have b: "obj_speed ?o * (32 / 16.67) * ?g * 1 < ph"
    by (simp add: object_at_def ph_def)
  have c: "obj_y ?o \<le> py"
    by (simp add: object_at_def py_def)
  from T a b c have "obj_y ?o + obj_speed ?o * step 16.67 * ?g * 1 < py + ph"
    by blast
  with a b c show ?thesis by blast
qed

text \<open>
  The clamp does not exclude tunnelling. In the run below the difficulty is 13 after 24
  minutes of play; the object, at \<open>x = 400\<close> over the paddle that spans 330 to 470, is at
  \<open>y = 450.5\<close> after the eighth frame, above the band from 490 to 514, and at
  \<open>y = 522.0\<close> after the ninth frame, 16.67 ms later, below it. It was never hit: no
  sound was played in the whole run, and the score and the lives are as at the start.
\<close>

theorem tunnelling_counterexample:
  "map obj_x (objects (eng tunnel_before)) = [400]
   \<and> paddle_px (handX (eng tunnel_before)) = 330
   \<and> paddle_px (handX (eng tunnel_before)) + pw = 470
   \<and> map obj_y (objects (eng tunnel_before)) = [2162477 / 4800]
   \<and> (2162477 / 4800 :: real) < py
   \<and> difficulty (eng tunnel_before) = 520039 / 40000
   \<and> map obj_y (objects (eng (fst tunnel_after))) = [125285137 / 240000]
   \<and> py + ph < (125285137 / 240000 :: real)
   \<and> snd tunnel_after = []
   \<and> score (eng (fst tunnel_after)) = 0
   \<and> lives (eng (fst tunnel_after)) = 5"
  by (simp add: tunnel_before_value tunnel_after_value paddle_px_def pw_def py_def ph_def)

section \<open>Pause and resume\<close>

text \<open>
  C1, as amended. A tick delivered while the game is paused changes nothing of the engine
  (spawn timer, objects, score, lives, combo, time reference), sends nothing out and
  requests the next frame; so does any run of such ticks. The time reference is not reset
  on resume: the first tick after resuming is computed from the engine as the last running
  tick left it, with \<open>dt\<close> the time since that tick, the paused interval included. On that
  tick, as on every running tick, only the motion step is clamped (\<open>min dt 32 / 16.67\<close>),
  the spawn timer is advanced by the whole of \<open>dt\<close>, and the difficulty is computed from
  the clock time elapsed since the start, which runs on during the pause.
\<close>

theorem paused_ticks_freeze_engine:
  "loop st th td True time' now' dr' e = (e, [], True)
   \<and> (running w \<and> paused w \<longrightarrow> run st th td mode w (frames fs) = (w, []))
   \<and> (running w \<and> paused w \<longrightarrow>
        run st th td mode w (frames fs @ [TogglePause, AnimationFrame time now dr]) =
          (w\<lparr>paused := False,
             eng := fst (loop st th td False time now dr (eng w)),
             running := snd (snd (loop st th td False time now dr (eng w)))\<rparr>,
           fst (snd (loop st th td False time now dr (eng w)))))
   \<and> lastTime (fst (loop st th td False time now dr e)) = time
   \<and> spawnTimer (fst (loop st th td False time now dr e)) =
        (if spawnTimer e + (time - lastTime e) > spawnRate st (score e) then 0
         else spawnTimer e + (time - lastTime e))
   \<and> difficulty (fst (loop st th td False time now dr e)) =
        difficulty_at (score (fst (loop st th td False time now dr e))) now (startTime e)
   \<and> objects (fst (loop st th td False time now dr e)) =
        filter (\<lambda>obj. \<not> hit (paddle_px (handX e)) obj)
          (filter (\<lambda>obj. obj_y obj < 650)
             (map (\<lambda>obj. obj\<lparr>obj_y := obj_y obj
                      + obj_speed obj * (min (time - lastTime e) 32 / 16.67) * gravityMult td * difficulty e\<rparr>)
                (objects e))
           @ (if spawnTimer e + (time - lastTime e) > spawnRate st (score e)
              then [spawn_object td dr] else []))"
  using loop_paused [of st th td time' now' dr' e]
    run_paused_frames [of w st th td mode fs]
    run_resume [of w st th td mode fs time now dr]
    loop_lastTime [of st th td time now dr e]
    loop_spawnTimer [of st th td time now dr e]
    loop_difficulty [of st th td time now dr e]
    loop_objects_explicit [of st th td time now dr e]
  by blast

theorem paused_ticks_freeze_engine_witness:
  "running pause_w2 \<and> paused pause_w2
   \<and> run (DIFFICULTY_SETTINGS EASY) MIND_LAB (THEME_DATA MIND_LAB) CURSOR pause_w2
        (frames [(6000, 1001012, sample_draws)]) = (pause_w2, [])
   \<and> spawnTimer (eng (fst (run (DIFFICULTY_SETTINGS EASY) MIND_LAB (THEME_DATA MIND_LAB) CURSOR
        pause_w2 (frames [(5990, 1001002, sample_draws)]
                   @ [TogglePause, AnimationFrame 6000 1001012 sample_draws])))) = 1000"
proof -
  let ?st = "DIFFICULTY_SETTINGS EASY"
  let ?td = "THEME_DATA MIND_LAB"
  have r: "running pause_w2 \<and> paused pause_w2"
    by (simp add: pause_w2_value pause_w1_value)
  note T1 = paused_ticks_freeze_engine [where st = ?st and th = MIND_LAB and td = ?td
      and mode = CURSOR and w = pause_w2 and fs = "[(6000, 1001012, sample_draws)]"
      and time = 6000 and now = 1001012 and dr = sample_draws and e = "eng pause_w2"
      and time' = 0 and now' = 0 and dr' = sample_draws]
  note T2 = paused_ticks_freeze_engine [where st = ?st and th = MIND_LAB and td = ?td
      and mode = CURSOR and w = pause_w2 and fs = "[(5990, 1001002, sample_draws)]"
      and time = 6000 and now = 1001012 and dr = sample_draws and e = "eng pause_w2"
      and time' = 0 and now' = 0 and dr' = sample_draws]
  from T1 r have a: "run ?st MIND_LAB ?td CURSOR pause_w2 (frames [(6000, 1001012, sample_draws)])
      = (pause_w2, [])"
    by blast
  from T2 r have b: "run ?st MIND_LAB ?td CURSOR pause_w2
        (frames [(5990, 1001002, sample_draws)] @ [TogglePause, AnimationFrame 6000 1001012 sample_draws]) =
          (pause_w2\<lparr>paused := False,
             eng := fst (loop ?st MIND_LAB ?td False 6000 1001012 sample_draws (eng pause_w2)),
             running := snd (snd (loop ?st MIND_LAB ?td False 6000 1001012 sample_draws (eng pause_w2)))\<rparr>,
           fst (snd (loop ?st MIND_LAB ?td False 6000 1001012 sample_draws (eng pause_w2))))"
    by blast
  from T2 have c: "spawnTimer (fst (loop ?st MIND_LAB ?td False 6000 1001012 sample_draws (eng pause_w2))) =
        (if spawnTimer (eng pause_w2) + (6000 - lastTime (eng pause_w2)) > spawnRate ?st (score (eng pause_w2)) then 0
         else spawnTimer (eng pause_w2) + (6000 - lastTime (eng pause_w2)))"
    by blast
  have d: "spawnTimer (fst (loop ?st MIND_LAB ?td False 6000 1001012 sample_draws (eng pause_w2))) = 1000"
    unfolding c by (simp add: pause_w2_value pause_w1_value spawnRate_def)
  have "spawnTimer (eng (fst (run ?st MIND_LAB ?td CURSOR
        pause_w2 (frames [(5990, 1001002, sample_draws)]
                   @ [TogglePause, AnimationFrame 6000 1001012 sample_draws])))) = 1000"
    unfolding b using d by simp
  with r a show ?thesis by blast
qed

text \<open>
  The paused interval is counted on resume. The first frame, at time 5000, leaves the
  spawn timer at 0; the two frames delivered during the pause, at 5016.67 and 5983.33,
  change nothing; the first frame after resuming, at 6000, leaves the spawn timer at 1000,
  although the game ran for at most 33.34 ms between the two running frames. The
  difficulty after it is computed from the 1012 ms of clock time since the start.
\<close>

theorem resume_catch_up_counterexample:
  "spawnTimer (eng pause_w1) = 0
   \<and> lastTime (eng pause_w1) = 5000
   \<and> pause_w2 = pause_w1\<lparr>paused := True\<rparr>
   \<and> spawnTimer (eng pause_w3) = 1000
   \<and> \<not> spawnTimer (eng pause_w3) - spawnTimer (eng pause_w1) \<le> (5016.67 - 5000) + (6000 - 5983.33)
   \<and> difficulty (eng pause_w3) = difficulty_at 0 1001012 1000000
   \<and> difficulty (eng pause_w3) \<noteq> difficulty_at 0 (1000012 + 33.34) 1000000"
  by (simp add: pause_w2_value pause_w3_value pause_w1_value difficulty_at_def)

section \<open>Five hazards end the game\<close>

text \<open>
  C9, as amended. With a hazard penalty of 1, from a running game with 5 lives, the lives
  after any run of inputs are 5 minus the number of BAD hits. The test \<open>lives \<le> 0\<close> runs
  once per tick, after the whole collision pass: while fewer than five BAD hits have
  occurred the game goes on and sends out hit sounds only; once a pass has brought them
  to five or more, the events are the hit sounds followed by exactly one terminal event,
  whose final score is the floor of the score at the end of that tick, the lives are at
  most 0, no frame is requested any more and whatever is delivered later changes nothing.
  The score is the one the run started with when no GOOD hit occurs. In particular, when
  the hits are five BAD hits and nothing else, the lives end at exactly 0 and the final
  score is the floor of the score accumulated up to the fifth hit.
\<close>

theorem five_hazards_end_the_game:
  assumes "hazardPenalty st = 1" and "lives (eng w) = 5" and "running w"
  shows "lives (eng (fst (run st th td mode w ins))) =
      5 - real (count_list (snd (run st th td mode w ins)) (PlayHazard th))
    \<and> (5 \<le> count_list (snd (run st th td mode w ins)) (PlayHazard th) \<longrightarrow>
        snd (run st th td mode w ins) =
          filter is_hit_event (snd (run st th td mode w ins))
          @ [GameOver \<lfloor>score (eng (fst (run st th td mode w ins)))\<rfloor>]
        \<and> lives (eng (fst (run st th td mode w ins))) \<le> 0
        \<and> \<not> running (fst (run st th td mode w ins))
        \<and> run st th td mode w (ins @ rest) = run st th td mode w ins)
    \<and> (count_list (snd (run st th td mode w ins)) (PlayHazard th) < 5 \<longrightarrow>
        running (fst (run st th td mode w ins))
        \<and> snd (run st th td mode w ins) = filter is_hit_event (snd (run st th td mode w ins)))
    \<and> (count_list (snd (run st th td mode w ins)) (PlayCollect th) = 0 \<longrightarrow>
        score (eng (fst (run st th td mode w ins))) = score (eng w))
    \<and> (filter is_hit_event (snd (run st th td mode w ins)) = replicate 5 (PlayHazard th) \<longrightarrow>
        lives (eng (fst (run st th td mode w ins))) = 0
        \<and> snd (run st th td mode w ins) = replicate 5 (PlayHazard th) @ [GameOver \<lfloor>score (eng w)\<rfloor>]
        \<and> score (eng (fst (run st th td mode w ins))) = score (eng w))"
proof -
  let ?w' = "fst (run st th td mode w ins)"
  let ?evs = "snd (run st th td mode w ins)"
  let ?c = "count_list ?evs (PlayHazard th)"
  have pos: "0 < lives (eng w)"
    using assms(2) by simp
  have L: "lives (eng ?w') = 5 - real ?c"
    using run_lives_count [where st = st and th = th and td = td and mode = mode and w = w
        and ins = ins] assms(1) assms(2) by simp
  have J: "running ?w' \<longleftrightarrow> 0 < lives (eng ?w')"
    and S: "?evs = filter is_hit_event ?evs
        @ (if running ?w' then [] else [GameOver \<lfloor>score (eng ?w')\<rfloor>])"
    using run_shape [OF assms(3) pos, of st th td mode ins] by blast+
  have over: "?evs = filter is_hit_event ?evs @ [GameOver \<lfloor>score (eng ?w')\<rfloor>]
      \<and> lives (eng ?w') \<le> 0 \<and> \<not> running ?w'
      \<and> run st th td mode w (ins @ rest) = run st th td mode w ins"
    if c: "5 \<le> ?c"
  proof -
    have le: "lives (eng ?w') \<le> 0"
      using L c by simp
    then have stop: "\<not> running ?w'"
      using J by simp
    have "(if running ?w' then [] else [GameOver \<lfloor>score (eng ?w')\<rfloor>]) = [GameOver \<lfloor>score (eng ?w')\<rfloor>]"
      using stop by simp
    then have "?evs = filter is_hit_event ?evs @ [GameOver \<lfloor>score (eng ?w')\<rfloor>]"
      using S by (rule subst)
    moreover have "run st th td mode w (ins @ rest) = run st th td mode w ins"
      using stop by (rule run_after_stop)
    ultimately show ?thesis
      using le stop by blast
  qed
  have alive: "running ?w' \<and> ?evs = filter is_hit_event ?evs"
    if c: "?c < 5"
  proof -
    have "0 < lives (eng ?w')"
      using L c by simp
    then have go: "running ?w'"
      using J by simp
    have "(if running ?w' then [] else [GameOver \<lfloor>score (eng ?w')\<rfloor>]) = []"
      using go by simp
    then have "?evs = filter is_hit_event ?evs @ []"
      using S by (rule subst)
    then have "?evs = filter is_hit_event ?evs"
      by (simp only: append_Nil2)
    with go show ?thesis by blast
  qed
  have sc: "score (eng ?w') = score (eng w)"
    if "count_list ?evs (PlayCollect th) = 0"
    using that by (rule run_score_no_collect)
  have five: "lives (eng ?w') = 0
      \<and> ?evs = replicate 5 (PlayHazard th) @ [GameOver \<lfloor>score (eng w)\<rfloor>]
      \<and> score (eng ?w') = score (eng w)"
    if h: "filter is_hit_event ?evs = replicate 5 (PlayHazard th)"
  proof -
    have "count_list (filter is_hit_event ?evs) (PlayHazard th) = ?c"
      by (rule count_list_filter_hit_event) simp
    then have c5: "?c = 5"
      by (simp only: h count_list_replicate_same)
    have "count_list (filter is_hit_event ?evs) (PlayCollect th) = count_list ?evs (PlayCollect th)"
      by (rule count_list_filter_hit_event) simp
    then have "count_list ?evs (PlayCollect th) = 0"
      by (simp only: h) (simp add: count_list_replicate_other)
    then have s: "score (eng ?w') = score (eng w)"
      by (rule sc)
    have "?evs = filter is_hit_event ?evs @ [GameOver \<lfloor>score (eng ?w')\<rfloor>]"
      using over c5 by simp
    then have "?evs = replicate 5 (PlayHazard th) @ [GameOver \<lfloor>score (eng w)\<rfloor>]"
      by (simp only: h s)
    moreover have "lives (eng ?w') = 0"
      using L c5 by simp
    ultimately show ?thesis
      using s by blast
  qed
  show ?thesis
    using L over alive sc five by blast
qed

theorem five_hazards_end_the_game_witness:
  "hazardPenalty (DIFFICULTY_SETTINGS EASY) = 1
   \<and> lives (eng hazard_world) = 5
   \<and> running hazard_world
   \<and> 5 \<le> count_list (snd (run (DIFFICULTY_SETTINGS EASY) MIND_LAB (THEME_DATA MIND_LAB) VISION
        hazard_world hazard_frames)) (PlayHazard MIND_LAB)
   \<and> filter is_hit_event
        (snd (run (DIFFICULTY_SETTINGS EASY) MIND_LAB (THEME_DATA MIND_LAB) VISION hazard_world
           hazard_frames)) = replicate 5 (PlayHazard MIND_LAB)
   \<and> lives (eng (fst (run (DIFFICULTY_SETTINGS EASY) MIND_LAB (THEME_DATA MIND_LAB) VISION
        hazard_world hazard_frames))) = 0
   \<and> snd (run (DIFFICULTY_SETTINGS EASY) MIND_LAB (THEME_DATA MIND_LAB) VISION hazard_world
        hazard_frames) = replicate 5 (PlayHazard MIND_LAB) @ [GameOver 0]
   \<and> run (DIFFICULTY_SETTINGS EASY) MIND_LAB (THEME_DATA MIND_LAB) VISION hazard_world
        (hazard_frames @ [AnimationFrame 1050.01 50 sample_draws]) =
      run (DIFFICULTY_SETTINGS EASY) MIND_LAB (THEME_DATA MIND_LAB) VISION hazard_world hazard_frames
   \<and> count_list (snd (run (DIFFICULTY_SETTINGS EASY) MIND_LAB (THEME_DATA MIND_LAB) VISION
        hazard_world [AnimationFrame 1016.67 17 sample_draws])) (PlayHazard MIND_LAB) < 5
   \<and> running (fst (run (DIFFICULTY_SETTINGS EASY) MIND_LAB (THEME_DATA MIND_LAB) VISION
        hazard_world [AnimationFrame 1016.67 17 sample_draws]))"
proof -
  let ?st = "DIFFICULTY_SETTINGS EASY"
  let ?td = "THEME_DATA MIND_LAB"
  let ?R = "run ?st MIND_LAB ?td VISION hazard_world hazard_frames"
  let ?R1 = "run ?st MIND_LAB ?td VISION hazard_world [AnimationFrame 1016.67 17 sample_draws]"
  have a: "hazardPenalty ?st = 1" by simp
  have b: "lives (eng hazard_world) = 5"
    by (simp add: hazard_world_def sample_engine_def)
  have c: "running hazard_world"
    by (simp add: hazard_world_def)
  have s: "score (eng hazard_world) = 0"
    by (simp add: hazard_world_def sample_engine_def)
  have n: "5 \<le> count_list (snd ?R) (PlayHazard MIND_LAB)"
    by (simp only: hazard_run_value) simp
  have d: "filter is_hit_event (snd ?R) = replicate 5 (PlayHazard MIND_LAB)"
    by (simp only: hazard_run_value) (simp add: numeral_eq_Suc)
  have k: "count_list (snd ?R1) (PlayHazard MIND_LAB) < 5"
    by (simp only: hazard_first_frame_value snd_conv) simp
  note T = five_hazards_end_the_game [OF a b c, where th = MIND_LAB and td = ?td and mode = VISION
      and ins = hazard_frames and rest = "[AnimationFrame 1050.01 50 sample_draws]"]
  note T1 = five_hazards_end_the_game [OF a b c, where th = MIND_LAB and td = ?td and mode = VISION
      and ins = "[AnimationFrame 1016.67 17 sample_draws]" and rest = "[]"]
  from T n have 1: "run ?st MIND_LAB ?td VISION hazard_world
        (hazard_frames @ [AnimationFrame 1050.01 50 sample_draws]) = ?R"
    by blast
  from T d have 2: "lives (eng (fst ?R)) = 0"
    and "snd ?R = replicate 5 (PlayHazard MIND_LAB) @ [GameOver \<lfloor>score (eng hazard_world)\<rfloor>]"
    by blast+
  then have 3: "snd ?R = replicate 5 (PlayHazard MIND_LAB) @ [GameOver 0]"
    by (simp only: s) simp
  from T1 k have 4: "running (fst ?R1)"
    by blast
  from a b c n d 1 2 3 4 k show ?thesis by blast
qed

text \<open>
  The claim as stated fails when the pass of the fifth BAD hit resolves more hits. With
  five hazards followed by a GOOD object inside the paddle band in one pass, the score is
  0 up to the fifth hit, but the GOOD hit after it is still scored and the final score
  is 5. With six hazards in one pass the lives end at \<open>-1\<close>, not 0.
\<close>

theorem hits_after_fifth_counterexample:
  "lives (eng late_good_world) = 5
   \<and> score (eng late_good_world) = 0
   \<and> snd (run (DIFFICULTY_SETTINGS EASY) MIND_LAB (THEME_DATA MIND_LAB) VISION late_good_world
        [AnimationFrame 1016.67 17 sample_draws]) =
      [PlayHazard MIND_LAB, PlayHazard MIND_LAB, PlayHazard MIND_LAB, PlayHazard MIND_LAB,
       PlayHazard MIND_LAB, PlayCollect MIND_LAB, GameOver 5]
   \<and> GameOver 5 \<noteq> GameOver \<lfloor>score (eng late_good_world)\<rfloor>
   \<and> lives (eng six_hazards_world) = 5
   \<and> lives (eng (fst (run (DIFFICULTY_SETTINGS EASY) MIND_LAB (THEME_DATA MIND_LAB) VISION
        six_hazards_world [AnimationFrame 1016.67 17 sample_draws]))) = - 1
   \<and> snd (run (DIFFICULTY_SETTINGS EASY) MIND_LAB (THEME_DATA MIND_LAB) VISION six_hazards_world
        [AnimationFrame 1016.67 17 sample_draws]) =
      [PlayHazard MIND_LAB, PlayHazard MIND_LAB, PlayHazard MIND_LAB, PlayHazard MIND_LAB,
       PlayHazard MIND_LAB, PlayHazard MIND_LAB, GameOver 0]"
proof -
  have "lives (eng late_good_world) = 5" "score (eng late_good_world) = 0"
    "lives (eng six_hazards_world) = 5"
    by (simp_all add: late_good_world_def six_hazards_world_def sample_engine_def)
  then show ?thesis
    by (simp only: late_good_run_value six_hazards_run_value fst_conv snd_conv) simp
qed

section \<open>The score never decreases\<close>

text \<open>
  C10. The score starts at 0 and never decreases over a session: after any inputs
  delivered to a new game (frames, paused or not, paddle updates, pause toggles) the score
  is at most what it is after any further inputs, and the combo is never negative. A GOOD
  hit adds \<open>5 + \<lfloor>combo / 4\<rfloor>\<close>, which is strictly positive, and increments the combo; a
  BAD hit takes the penalty from the lives, resets the combo and leaves the score; a tick
  never lowers the score, and the motion, which drops the objects that were missed, and
  the spawner leave it unchanged.
\<close>

theorem score_never_decreases:
  "score (eng (world_init st now0)) = 0
   \<and> score (eng (fst (run st th td mode (world_init st now0) ins)))
       \<le> score (eng (fst (run st th td mode (world_init st now0) (ins @ rest))))
   \<and> 0 \<le> combo (eng (fst (run st th td mode (world_init st now0) ins)))
   \<and> (0 \<le> combo e \<and> obj_type obj = GOOD \<longrightarrow>
        score (fst (on_hit st th obj e)) = score e + 5 + of_int \<lfloor>combo e / 4\<rfloor>
        \<and> score e < score (fst (on_hit st th obj e))
        \<and> combo (fst (on_hit st th obj e)) = combo e + 1
        \<and> lives (fst (on_hit st th obj e)) = lives e)
   \<and> (obj_type obj = BAD \<longrightarrow>
        score (fst (on_hit st th obj e)) = score e
        \<and> lives (fst (on_hit st th obj e)) = lives e - hazardPenalty st
        \<and> combo (fst (on_hit st th obj e)) = 0)
   \<and> (0 \<le> combo e \<longrightarrow> score e \<le> score (fst (loop st th td pz time now dr e)))
   \<and> score (before_collisions st td time dr e) = score e"
proof -
  let ?w0 = "world_init st now0"
  have c0: "0 \<le> combo (eng ?w0)" and s0: "score (eng ?w0) = 0"
    by (simp_all add: world_init_def engine_init_def)
  have c1: "0 \<le> combo (eng (fst (run st th td mode ?w0 ins)))"
    using run_score_mono [OF c0, of st th td mode ins] by simp
  have "score (eng (fst (run st th td mode ?w0 ins)))
       \<le> score (eng (fst (run st th td mode ?w0 (ins @ rest))))"
    using run_score_mono [OF c1, of st th td mode rest] by (simp add: run_append)
  then show ?thesis
    using s0 c1 on_hit_good [of e obj st th] on_hit_bad [of obj st th e]
      loop_score_mono [of e st th td pz time now dr] before_collisions_frame(1) [of st td time dr e]
    by simp
qed

theorem score_never_decreases_witness:
  "(0::real) \<le> combo (sample_engine []) \<and> obj_type (object_at 400 500 GOOD) = GOOD
   \<and> score (fst (on_hit (DIFFICULTY_SETTINGS EASY) COSMIC (object_at 400 500 GOOD) (sample_engine []))) = 5
   \<and> obj_type (object_at 400 500 BAD) = BAD
   \<and> score (fst (on_hit (DIFFICULTY_SETTINGS EASY) COSMIC (object_at 400 500 BAD) (sample_engine []))) = 0
   \<and> lives (fst (on_hit (DIFFICULTY_SETTINGS EASY) COSMIC (object_at 400 500 BAD) (sample_engine []))) = 4
   \<and> score (sample_engine [])
       \<le> score (fst (loop (DIFFICULTY_SETTINGS EASY) COSMIC (THEME_DATA COSMIC) False 1016.67 17
            sample_draws (sample_engine [])))"
proof -
  let ?st = "DIFFICULTY_SETTINGS EASY"
  let ?e = "sample_engine []"
  note G = score_never_decreases [where st = ?st and th = COSMIC and td = "THEME_DATA COSMIC"
      and mode = CURSOR and e = ?e and obj = "object_at 400 500 GOOD" and pz = False
      and time = "1016.67" and now = 17 and dr = sample_draws and now0 = 0 and ins = "[]"
      and rest = "[]"]
  note B = score_never_decreases [where st = ?st and th = COSMIC and td = "THEME_DATA COSMIC"
      and mode = CURSOR and e = ?e and obj = "object_at 400 500 BAD" and pz = False
      and time = "1016.67" and now = 17 and dr = sample_draws and now0 = 0 and ins = "[]"
      and rest = "[]"]
  have c: "(0::real) \<le> combo ?e" and s: "score ?e = 0" and l: "lives ?e = 5"
    and f: "\<lfloor>combo ?e / 4\<rfloor> = 0"
    by (simp_all add: sample_engine_def)
  have g: "obj_type (object_at 400 500 GOOD) = GOOD" and b: "obj_type (object_at 400 500 BAD) = BAD"
    by (simp_all add: object_at_def)
  from G c g have "score (fst (on_hit ?st COSMIC (object_at 400 500 GOOD) ?e))
      = score ?e + 5 + of_int \<lfloor>combo ?e / 4\<rfloor>"
    by blast
  then have 1: "score (fst (on_hit ?st COSMIC (object_at 400 500 GOOD) ?e)) = 5"
    by (simp add: s f)
  from B b have "score (fst (on_hit ?st COSMIC (object_at 400 500 BAD) ?e)) = score ?e"
    and "lives (fst (on_hit ?st COSMIC (object_at 400 500 BAD) ?e)) = lives ?e - hazardPenalty ?st"
    by blast+
  then have 2: "score (fst (on_hit ?st COSMIC (object_at 400 500 BAD) ?e)) = 0"
    and 3: "lives (fst (on_hit ?st COSMIC (object_at 400 500 BAD) ?e)) = 4"
    by (simp_all add: s l)
  from G c have 4: "score ?e \<le> score (fst (loop ?st COSMIC (THEME_DATA COSMIC) False 1016.67 17
            sample_draws ?e))"
    by blast
  from c g b 1 2 3 4 show ?thesis by blast
qed

end
